theory Spec2Isabelle
  imports Complex_Main "HOL-Library.Log_Nat" "HOL-Library.Sublist"
begin

section \<open>JavaScript numbers\<close>

text \<open>
  Every number of the bots is a JavaScript Number, an IEEE-754 binary64 value. A finite
  binary64 value is a rational, so the carrier is \<open>rat\<close>; each arithmetic operation of the
  source is the exact operation followed by rounding to 53 significant bits, ties to even
  (\<open>fl\<close>). The exponent range is not bounded here and the special values (NaN, the
  infinities, the negative zero) are not part of the carrier: a quotient by zero is
  outside the model, and a theorem whose statement depends on the value of a quotient
  assumes that the divisor is not zero.
\<close>

type_synonym number = rat

definition pow2 :: "int \<Rightarrow> rat" where
  "pow2 e = (if 0 \<le> e then 2 ^ nat e else 1 / 2 ^ nat (- e))"

text \<open>The binary exponent of a positive rational: \<open>pow2 e \<le> x < pow2 (e + 1)\<close>.\<close>

definition ilog2 :: "rat \<Rightarrow> int" where
  "ilog2 x = (let (p, q) = quotient_of x; e = bitlen p - bitlen q
              in if pow2 e \<le> x then e else e - 1)"

definition roundEven :: "rat \<Rightarrow> int" where
  "roundEven y = (let f = \<lfloor>y\<rfloor>; r = y - of_int f
                  in if r < 1 / 2 then f
                     else if 1 / 2 < r then f + 1
                     else if even f then f else f + 1)"

definition fl :: "rat \<Rightarrow> number" where
  "fl x = (if x = 0 then 0
           else let u = pow2 (ilog2 \<bar>x\<bar> - 52) in of_int (roundEven (x / u)) * u)"

definition subN :: "number \<Rightarrow> number \<Rightarrow> number" where
  "subN a b = fl (a - b)"

definition mulN :: "number \<Rightarrow> number \<Rightarrow> number" where
  "mulN a b = fl (a * b)"

definition divN :: "number \<Rightarrow> number \<Rightarrow> number" where
  "divN a b = fl (a / b)"

text \<open>\<open>Math.floor\<close>: the floor of a binary64 value is a binary64 value, no rounding.\<close>

definition floorN :: "number \<Rightarrow> number" where
  "floorN x = of_int \<lfloor>x\<rfloor>"

section \<open>Filter normalizer (GridBot.js, discordbot.js, bot.js)\<close>

text \<open>
  \<^verbatim>\<open>
  function adjustQuantity(quantity, stepSize, minQty) {
    let adjustedQuantity = Math.floor(quantity / stepSize) * stepSize;
    if (adjustedQuantity < minQty) adjustedQuantity = minQty;
    return adjustedQuantity;
  }
  \<close>
  The same text stands in both variants of GridBot.js and in bot.js; discordbot.js writes
  the last two lines as one conditional expression. \<open>adjustPrice\<close> is the same function
  on \<open>(price, tickSize, minPrice)\<close>.
\<close>

definition adjustQuantity :: "number \<Rightarrow> number \<Rightarrow> number \<Rightarrow> number" where
  "adjustQuantity quantity stepSize minQty =
     (let adjustedQuantity = mulN (floorN (divN quantity stepSize)) stepSize
      in if adjustedQuantity < minQty then minQty else adjustedQuantity)"

definition adjustPrice :: "number \<Rightarrow> number \<Rightarrow> number \<Rightarrow> number" where
  "adjustPrice price tickSize minPrice =
     (let adjustedPrice = mulN (floorN (divN price tickSize)) tickSize
      in if adjustedPrice < minPrice then minPrice else adjustedPrice)"

definition isValidNotional :: "number \<Rightarrow> number \<Rightarrow> number \<Rightarrow> bool" where
  "isValidNotional quantity price minNotional = (minNotional \<le> mulN quantity price)"

section \<open>Data model\<close>

record filters =
  minQty :: number
  stepSize :: number
  tickSize :: number
  minPrice :: number
  minNotional :: number

record config =
  percentageDrop :: number
  percentageRise :: number
  investment :: number
  noBuys :: bool

record order =
  orderId :: nat
  quantity :: number
  price :: number

record session =
  basePrice :: number
  activeOrders :: "order list"

datatype side = BUY | SELL

datatype error = ApiError string | ReferenceError string | TypeError string

text \<open>
  The exchange as one tick sees it: the answer to the price request, the answer to a
  status request for an order id, and the answer to a limit order (the id the exchange
  assigns, or the error the request throws). Within one tick the answer is a function
  of the request; every tick has an exchange of its own, so the answers may change from
  tick to tick. HTTP transport, signing and the \<open>toFixed\<close> serialisation of the request
  are inside \<open>placeSpotOrder\<close>; the wrapper of GridBot.js returns the id together with the
  quantity and price it was called with.
\<close>

record exchange =
  getCurrentPrice :: "error + number"
  checkOrderStatus :: "nat \<Rightarrow> error + string"
  placeSpotOrder :: "side \<Rightarrow> number \<Rightarrow> number \<Rightarrow> error + nat"

text \<open>An order the exchange accepted during a tick: side, quantity, price.\<close>

type_synonym placement = "side \<times> number \<times> number"

text \<open>What a tick writes to its log or channel last.\<close>

datatype report =
  Failed error
  | BuyPlaced nat
  | NotionalSkipped
  | QuantitySkipped
  | BaseRaised
  | Unchanged

text \<open>The numeric literals of the source, each the binary64 value nearest to it.\<close>

definition lit_0_99 :: number where "lit_0_99 = fl (99 / 100)"
definition lit_1_03012 :: number where "lit_1_03012 = fl (103012 / 100000)"
definition lit_3_012 :: number where "lit_3_012 = fl (3012 / 1000)"
definition lit_1_03 :: number where "lit_1_03 = fl (103 / 100)"
definition lit_0_60 :: number where "lit_0_60 = fl (60 / 100)"
definition lit_1_2 :: number where "lit_1_2 = fl (12 / 10)"

text \<open>
  \<^verbatim>\<open>
  const priceDrop = ((basePrice - currentPrice) / basePrice) * 100;
  const priceRise = ((currentPrice - basePrice) / basePrice) * 100;
  \<close>
\<close>

definition priceDrop :: "number \<Rightarrow> number \<Rightarrow> number" where
  "priceDrop base currentPrice = mulN (divN (subN base currentPrice) base) 100"

definition priceRise :: "number \<Rightarrow> number \<Rightarrow> number" where
  "priceRise base currentPrice = mulN (divN (subN currentPrice base) base) 100"

text \<open>\<open>activeOrders.splice(i, 1)\<close>\<close>

definition splice1 :: "nat \<Rightarrow> 'a list \<Rightarrow> 'a list" where
  "splice1 i xs = take i xs @ drop (Suc i) xs"

section \<open>GridBot.js, first variant\<close>

text \<open>
  The fill sweep, \<open>for (let i = activeOrders.length - 1; i >= 0; i--)\<close>: the counter of
  the model is \<open>i + 1\<close>. A status request or a sell order that throws ends the sweep (and
  the tick) at once, with the ledger as it is at that moment. A read past the end of the
  array would give \<open>undefined\<close>, and \<open>order.orderId\<close> would throw a TypeError.
\<close>

fun sweep1 :: "exchange \<Rightarrow> filters \<Rightarrow> nat \<Rightarrow> order list \<Rightarrow> placement list
    \<Rightarrow> order list \<times> placement list \<times> error option" where
  "sweep1 ex f 0 orders sells = (orders, sells, None)"
| "sweep1 ex f (Suc i) orders sells =
     (if i < length orders then
        (let order = orders ! i in
         case checkOrderStatus ex (orderId order) of
           Inl e \<Rightarrow> (orders, sells, Some e)
         | Inr status \<Rightarrow>
             if status = ''FILLED'' then
               (let orders' = splice1 i orders;
                    sellPrice = adjustPrice (mulN (price order) lit_1_03012) (tickSize f) (minPrice f)
                in case placeSpotOrder ex SELL (quantity order) sellPrice of
                     Inl e \<Rightarrow> (orders', sells, Some e)
                   | Inr sellId \<Rightarrow> sweep1 ex f i orders' (sells @ [(SELL, quantity order, sellPrice)]))
             else sweep1 ex f i orders sells)
      else (orders, sells, Some (TypeError ''Cannot read properties of undefined'')))"

text \<open>
  One run of the \<open>setInterval\<close> callback. The whole body is inside \<open>try\<close>: whatever
  throws, the callback ends normally with the session as it is at that moment, and the
  \<open>catch\<close> block logs the error.
\<close>

definition tick1 :: "exchange \<Rightarrow> filters \<Rightarrow> config \<Rightarrow> session
    \<Rightarrow> session \<times> placement list \<times> report" where
  "tick1 ex f c s =
     (case getCurrentPrice ex of
        Inl e \<Rightarrow> (s, [], Failed e)
      | Inr currentPrice \<Rightarrow>
          (case sweep1 ex f (length (activeOrders s)) (activeOrders s) [] of
             (orders, sells, Some e) \<Rightarrow> (s\<lparr>activeOrders := orders\<rparr>, sells, Failed e)
           | (orders, sells, None) \<Rightarrow>
               if \<not> noBuys c \<and> percentageDrop c \<le> priceDrop (basePrice s) currentPrice then
                 (let quantity = adjustQuantity (divN (investment c) currentPrice) (stepSize f) (minQty f);
                      price = adjustPrice (mulN currentPrice lit_0_99) (tickSize f) (minPrice f)
                  in if isValidNotional quantity price (minNotional f) then
                       (case placeSpotOrder ex BUY quantity price of
                          Inl e \<Rightarrow> (s\<lparr>activeOrders := orders\<rparr>, sells, Failed e)
                        | Inr buyId \<Rightarrow>
                            (s\<lparr>activeOrders :=
                                 orders @ [\<lparr>orderId = buyId, quantity = quantity, price = price\<rparr>],
                               basePrice := currentPrice\<rparr>,
                             sells @ [(BUY, quantity, price)], BuyPlaced buyId))
                     else (s\<lparr>activeOrders := orders\<rparr>, sells, NotionalSkipped))
               else if percentageRise c \<le> priceRise (basePrice s) currentPrice then
                 (s\<lparr>activeOrders := orders, basePrice := currentPrice\<rparr>, sells, BaseRaised)
               else (s\<lparr>activeOrders := orders\<rparr>, sells, Unchanged)))"

text \<open>The ledger test of the sweep: an order stays unless its status request answers FILLED.\<close>

definition stays :: "exchange \<Rightarrow> order \<Rightarrow> bool" where
  "stays ex order = (checkOrderStatus ex (orderId order) \<noteq> Inr ''FILLED'')"

text \<open>The sell order the first variant sends for a filled buy order.\<close>

definition sellOf1 :: "filters \<Rightarrow> order \<Rightarrow> placement" where
  "sellOf1 f order =
     (SELL, quantity order, adjustPrice (mulN (price order) lit_1_03012) (tickSize f) (minPrice f))"


text \<open>
  The timer: \<open>setInterval\<close> runs the callback once per period, whatever the run before
  it did. The list holds the exchange as each scheduled tick sees it. A run is taken to
  end before the next one starts (the period is two minutes), so runs do not interleave.
\<close>

fun run1 :: "filters \<Rightarrow> config \<Rightarrow> exchange list \<Rightarrow> session
    \<Rightarrow> session \<times> placement list \<times> report list" where
  "run1 f c [] s = (s, [], [])"
| "run1 f c (ex # exs) s =
     (case tick1 ex f c s of
        (s', placed, r) \<Rightarrow>
          (case run1 f c exs s' of
             (s'', placed', rs) \<Rightarrow> (s'', placed @ placed', r # rs)))"

section \<open>GridBot.js, second variant\<close>

text \<open>
  The second file of GridBot.js reads only the lot size filter, has no \<open>noBuys\<close> flag and
  no notional test, sends the prices unquantized, and computes the sell price as
  \<^verbatim>\<open>const sellPrice = order.price * 3.012;\<close> under the comment
  \<^verbatim>\<open>// Calculate sell price (3.012% above filled price)\<close>.
\<close>

fun sweep2 :: "exchange \<Rightarrow> nat \<Rightarrow> order list \<Rightarrow> placement list
    \<Rightarrow> order list \<times> placement list \<times> error option" where
  "sweep2 ex 0 orders sells = (orders, sells, None)"
| "sweep2 ex (Suc i) orders sells =
     (if i < length orders then
        (let order = orders ! i in
         case checkOrderStatus ex (orderId order) of
           Inl e \<Rightarrow> (orders, sells, Some e)
         | Inr status \<Rightarrow>
             if status = ''FILLED'' then
               (let orders' = splice1 i orders;
                    sellPrice = mulN (price order) lit_3_012
                in case placeSpotOrder ex SELL (quantity order) sellPrice of
                     Inl e \<Rightarrow> (orders', sells, Some e)
                   | Inr sellId \<Rightarrow> sweep2 ex i orders' (sells @ [(SELL, quantity order, sellPrice)]))
             else sweep2 ex i orders sells)
      else (orders, sells, Some (TypeError ''Cannot read properties of undefined'')))"

text \<open>
  \<^verbatim>\<open>
  let quantity = investment / currentPrice;
  quantity = adjustQuantity(quantity, stepSize, minQty);
  if (quantity < minQty) {
    console.error(`Quantity (${quantity}) is below the minimum allowed (${minQty}). Skipping order.`);
    return;
  }
  \<close>
\<close>

definition tick2 :: "exchange \<Rightarrow> filters \<Rightarrow> config \<Rightarrow> session
    \<Rightarrow> session \<times> placement list \<times> report" where
  "tick2 ex f c s =
     (case getCurrentPrice ex of
        Inl e \<Rightarrow> (s, [], Failed e)
      | Inr currentPrice \<Rightarrow>
          (case sweep2 ex (length (activeOrders s)) (activeOrders s) [] of
             (orders, sells, Some e) \<Rightarrow> (s\<lparr>activeOrders := orders\<rparr>, sells, Failed e)
           | (orders, sells, None) \<Rightarrow>
               if percentageDrop c \<le> priceDrop (basePrice s) currentPrice then
                 (let quantity = divN (investment c) currentPrice;
                      quantity = adjustQuantity quantity (stepSize f) (minQty f)
                  in if quantity < minQty f then (s\<lparr>activeOrders := orders\<rparr>, sells, QuantitySkipped)
                     else
                       (case placeSpotOrder ex BUY quantity (mulN currentPrice lit_0_99) of
                          Inl e \<Rightarrow> (s\<lparr>activeOrders := orders\<rparr>, sells, Failed e)
                        | Inr buyId \<Rightarrow>
                            (s\<lparr>activeOrders :=
                                 orders @ [\<lparr>orderId = buyId, quantity = quantity,
                                            price = mulN currentPrice lit_0_99\<rparr>],
                               basePrice := currentPrice\<rparr>,
                             sells @ [(BUY, quantity, mulN currentPrice lit_0_99)], BuyPlaced buyId)))
               else if percentageRise c \<le> priceRise (basePrice s) currentPrice then
                 (s\<lparr>activeOrders := orders, basePrice := currentPrice\<rparr>, sells, BaseRaised)
               else (s\<lparr>activeOrders := orders\<rparr>, sells, Unchanged)))"

text \<open>The sell order the second variant sends for a filled buy order.\<close>

definition sellOf2 :: "order \<Rightarrow> placement" where
  "sellOf2 order = (SELL, quantity order, mulN (price order) lit_3_012)"

section \<open>discordbot.js\<close>

text \<open>
  The sweep of discordbot.js calls
  \<^verbatim>\<open>await checkOrderStatus(apiKey, apiSecret, symbol, order.orderId)\<close>.
  The module defines generateSignature, makeRequest, getCurrentPrice, getTradingPairInfo,
  adjustQuantity, adjustPrice, fetchActiveOrders, placeSpotOrder and startGridBot, and
  imports initializeDiscordBot and sendMessageToChannel: there is no binding of
  \<open>checkOrderStatus\<close>, so evaluating the call throws a ReferenceError.
\<close>

definition checkOrderStatusD :: "nat \<Rightarrow> error + string" where
  "checkOrderStatusD oid = Inl (ReferenceError ''checkOrderStatus is not defined'')"

text \<open>
  Here the sell order is sent first and the filled order spliced out after it. The
  ledger starts as the raw open-order objects of the exchange, which the same record
  stands for: the loop body never reads a field of them, since the status call throws
  first.
\<close>

fun sweepD :: "exchange \<Rightarrow> filters \<Rightarrow> nat \<Rightarrow> order list \<Rightarrow> placement list
    \<Rightarrow> order list \<times> placement list \<times> error option" where
  "sweepD ex f 0 orders sells = (orders, sells, None)"
| "sweepD ex f (Suc i) orders sells =
     (if i < length orders then
        (let order = orders ! i in
         case checkOrderStatusD (orderId order) of
           Inl e \<Rightarrow> (orders, sells, Some e)
         | Inr status \<Rightarrow>
             if status = ''FILLED'' then
               (let sellPrice = adjustPrice (mulN (price order) lit_1_03) (tickSize f) (minPrice f)
                in case placeSpotOrder ex SELL (quantity order) sellPrice of
                     Inl e \<Rightarrow> (orders, sells, Some e)
                   | Inr sellId \<Rightarrow>
                       sweepD ex f i (splice1 i orders) (sells @ [(SELL, quantity order, sellPrice)]))
             else sweepD ex f i orders sells)
      else (orders, sells, Some (TypeError ''Cannot read properties of undefined'')))"

text \<open>
  The thresholds are constants of \<open>startGridBot\<close>: \<open>percentageDrop = 0.60\<close>,
  \<open>percentageRise = 1.2\<close>, \<open>investment = 2\<close>. There is no \<open>noBuys\<close> flag. The reports go
  to the channel through \<open>sendMessageToChannel\<close>, which is taken not to throw.
\<close>

definition tickD :: "exchange \<Rightarrow> filters \<Rightarrow> session \<Rightarrow> session \<times> placement list \<times> report" where
  "tickD ex f s =
     (case getCurrentPrice ex of
        Inl e \<Rightarrow> (s, [], Failed e)
      | Inr currentPrice \<Rightarrow>
          (case sweepD ex f (length (activeOrders s)) (activeOrders s) [] of
             (orders, sells, Some e) \<Rightarrow> (s\<lparr>activeOrders := orders\<rparr>, sells, Failed e)
           | (orders, sells, None) \<Rightarrow>
               if lit_0_60 \<le> priceDrop (basePrice s) currentPrice then
                 (let quantity = adjustQuantity (divN 2 currentPrice) (stepSize f) (minQty f);
                      price = adjustPrice (mulN currentPrice lit_0_99) (tickSize f) (minPrice f)
                  in if minNotional f \<le> mulN quantity price then
                       (case placeSpotOrder ex BUY quantity price of
                          Inl e \<Rightarrow> (s\<lparr>activeOrders := orders\<rparr>, sells, Failed e)
                        | Inr buyId \<Rightarrow>
                            (s\<lparr>activeOrders :=
                                 orders @ [\<lparr>orderId = buyId, quantity = quantity, price = price\<rparr>],
                               basePrice := currentPrice\<rparr>,
                             sells @ [(BUY, quantity, price)], BuyPlaced buyId))
                     else (s\<lparr>activeOrders := orders\<rparr>, sells, NotionalSkipped))
               else if lit_1_2 \<le> priceRise (basePrice s) currentPrice then
                 (s\<lparr>activeOrders := orders, basePrice := currentPrice\<rparr>, sells, BaseRaised)
               else (s\<lparr>activeOrders := orders\<rparr>, sells, Unchanged)))"

fun runD :: "filters \<Rightarrow> exchange list \<Rightarrow> session \<Rightarrow> session \<times> placement list \<times> report list" where
  "runD f [] s = (s, [], [])"
| "runD f (ex # exs) s =
     (case tickD ex f s of
        (s', placed, r) \<Rightarrow>
          (case runD f exs s' of
             (s'', placed', rs) \<Rightarrow> (s'', placed @ placed', r # rs)))"

section \<open>helpers/discordhelper.js: the message handler\<close>

text \<open>
  \<open>userTradingData\<close> is a Map from the author's id to \<open>{ apiKey, apiSecret }\<close>; nothing
  else is ever stored in it. The polling loops that \<open>startGridBot\<close> starts with
  \<open>setInterval\<close> are held by the timer list of the runtime only: \<open>intervals\<close> lists them
  in the order they were started.
\<close>

record credentials =
  apiKey :: string
  apiSecret :: string

record message =
  author :: nat
  content :: string
  channel :: nat

text \<open>A started polling loop: the arguments and the local variables its callback closes over.\<close>

record bot =
  botKey :: string
  botSecret :: string
  botSymbol :: "string option"
  botChannel :: nat
  botFilters :: filters
  botSession :: session

datatype notice =
  Usage
  | CredentialsSet
  | CredentialsMissing
  | Starting "string option"
  | Started "string option" number
  | Fetched nat
  | StartError error

record supervisor =
  userTradingData :: "nat \<rightharpoonup> credentials"
  intervals :: "bot list"
  sent :: "notice list"

text \<open>
  The exchange as \<open>startGridBot\<close> of discordbot.js sees it. The symbol is the second
  word of the message, \<open>undefined\<close> (\<open>None\<close>) when the message has one word.
\<close>

record startup =
  getTradingPairInfo :: "string option \<Rightarrow> error + filters"
  getStartPrice :: "string option \<Rightarrow> error + number"
  fetchActiveOrders :: "string \<Rightarrow> string \<Rightarrow> string option \<Rightarrow> error + order list"

text \<open>\<open>content.split(' ')\<close>\<close>

fun split_space :: "string \<Rightarrow> string list" where
  "split_space [] = [[]]"
| "split_space (x # xs) =
     (if x = CHR '' '' then [] # split_space xs
      else (case split_space xs of
              [] \<Rightarrow> [[x]]
            | w # ws \<Rightarrow> (x # w) # ws))"

text \<open>Reading an array element: \<open>undefined\<close> past the end.\<close>

definition element :: "'a list \<Rightarrow> nat \<Rightarrow> 'a option" where
  "element xs i = (if i < length xs then Some (xs ! i) else None)"

text \<open>
  \<^verbatim>\<open>
  async function startGridBot(apiKey, apiSecret, symbol, channel) {
    try {
      const { minQty, ... } = await getTradingPairInfo(symbol);
      let basePrice = await getCurrentPrice(apiKey, apiSecret, symbol);
      sendMessageToChannel(channel, `GridBot started for ${symbol}. ...`);
      let activeOrders = await fetchActiveOrders(apiKey, apiSecret, symbol);
      sendMessageToChannel(channel, `Fetched ${activeOrders.length} active orders.`);
      setInterval(async () => { ... }, intervalMs);
    } catch (error) {
      sendMessageToChannel(channel, `Error starting GridBot: ${error.message}`);
    }
  }
  \<close>
\<close>

definition startGridBot :: "startup \<Rightarrow> string \<Rightarrow> string \<Rightarrow> string option \<Rightarrow> nat
    \<Rightarrow> supervisor \<Rightarrow> supervisor" where
  "startGridBot st key secret symbol chan sv =
     (case getTradingPairInfo st symbol of
        Inl e \<Rightarrow> sv\<lparr>sent := sent sv @ [StartError e]\<rparr>
      | Inr f \<Rightarrow>
          (case getStartPrice st symbol of
             Inl e \<Rightarrow> sv\<lparr>sent := sent sv @ [StartError e]\<rparr>
           | Inr base \<Rightarrow>
               (case fetchActiveOrders st key secret symbol of
                  Inl e \<Rightarrow> sv\<lparr>sent := sent sv @ [Started symbol base, StartError e]\<rparr>
                | Inr orders \<Rightarrow>
                    sv\<lparr>sent := sent sv @ [Started symbol base, Fetched (length orders)],
                        intervals := intervals sv @
                          [\<lparr>botKey = key, botSecret = secret, botSymbol = symbol, botChannel = chan,
                            botFilters = f,
                            botSession = \<lparr>basePrice = base, activeOrders = orders\<rparr>\<rparr>]\<rparr>)))"

text \<open>
  \<^verbatim>\<open>
  client.on('messageCreate', async (message) => {
    if (message.content.startsWith('!setapikey')) {
      const [_, apiKey, apiSecret] = message.content.split(' ');
      if (!apiKey || !apiSecret) { message.reply('Usage: ...'); return; }
      userTradingData.set(message.author.id, { apiKey, apiSecret });
      message.reply('API credentials set successfully. ...');
    }
    if (message.content.startsWith('!setpair')) {
      const [_, symbol] = message.content.split(' ');
      const userData = userTradingData.get(message.author.id);
      if (!userData) { message.reply('Set your API credentials first ...'); return; }
      message.reply(`Trading pair set to ${symbol}. Starting the GridBot...`);
      await startGridBot(userData.apiKey, userData.apiSecret, symbol, message.channel);
    }
  });
  \<close>
\<close>

text \<open>
  \<open>!apiKey || !apiSecret\<close> holds when a word is missing (\<open>undefined\<close>) or empty. The
  result \<open>None\<close> is the early \<open>return\<close> after the usage reply.
\<close>

definition setapikey :: "message \<Rightarrow> supervisor \<Rightarrow> supervisor option" where
  "setapikey m sv =
     (let words = split_space (content m)
      in case (element words 1, element words 2) of
           (Some key, Some secret) \<Rightarrow>
             if key = [] \<or> secret = [] then None
             else Some (sv\<lparr>userTradingData :=
                              (userTradingData sv)(author m \<mapsto> \<lparr>apiKey = key, apiSecret = secret\<rparr>),
                            sent := sent sv @ [CredentialsSet]\<rparr>)
         | _ \<Rightarrow> None)"

definition setpair :: "startup \<Rightarrow> message \<Rightarrow> supervisor \<Rightarrow> supervisor" where
  "setpair st m sv =
     (let symbol = element (split_space (content m)) 1
      in case userTradingData sv (author m) of
           None \<Rightarrow> sv\<lparr>sent := sent sv @ [CredentialsMissing]\<rparr>
         | Some userData \<Rightarrow>
             startGridBot st (apiKey userData) (apiSecret userData) symbol (channel m)
               (sv\<lparr>sent := sent sv @ [Starting symbol]\<rparr>))"

definition messageCreate :: "startup \<Rightarrow> message \<Rightarrow> supervisor \<Rightarrow> supervisor" where
  "messageCreate st m sv =
     (if prefix ''!setapikey'' (content m) then
        (case setapikey m sv of
           None \<Rightarrow> sv\<lparr>sent := sent sv @ [Usage]\<rparr>
         | Some sv' \<Rightarrow>
             if prefix ''!setpair'' (content m) then setpair st m sv' else sv')
      else if prefix ''!setpair'' (content m) then setpair st m sv
      else sv)"

section \<open>Concrete inputs\<close>

text \<open>
  A symbol with lot step and minimum 0.125, price tick and minimum 0.25 and minimum
  notional 1; the thresholds of the source (0.6 and 1.2 per cent) with 200 invested per
  order; a session at base price 100 tracking the buy orders 7 and 8; an exchange that
  quotes 99, reports order 7 as FILLED and every other order as NEW, and accepts every
  limit order under the id 42.
\<close>

definition filtersW :: filters where
  "filtersW = \<lparr>minQty = 1 / 8, stepSize = 1 / 8, tickSize = 1 / 4, minPrice = 1 / 4, minNotional = 1\<rparr>"

definition configW :: config where
  "configW = \<lparr>percentageDrop = lit_0_60, percentageRise = lit_1_2, investment = 200, noBuys = False\<rparr>"

definition order7 :: order where
  "order7 = \<lparr>orderId = 7, quantity = 10, price = 50\<rparr>"

definition order8 :: order where
  "order8 = \<lparr>orderId = 8, quantity = 4, price = 60\<rparr>"

definition exchangeW :: exchange where
  "exchangeW = \<lparr>getCurrentPrice = Inr 99,
                 checkOrderStatus = (\<lambda>oid. if oid = 7 then Inr ''FILLED'' else Inr ''NEW''),
                 placeSpotOrder = (\<lambda>sd q p. Inr 42)\<rparr>"

definition sessionW :: session where
  "sessionW = \<lparr>basePrice = 100, activeOrders = [order7, order8]\<rparr>"

text \<open>
  Variations: the same exchange quoting 102; a session that tracks order 8 only, and one
  that tracks nothing; an exchange that refuses every buy order, one that refuses every
  sell order, and one whose status request for order 8 fails.
\<close>

definition exchangeUp :: exchange where
  "exchangeUp = exchangeW\<lparr>getCurrentPrice := Inr 102\<rparr>"

definition sessionE :: session where
  "sessionE = \<lparr>basePrice = 100, activeOrders = [order8]\<rparr>"

definition sessionEmpty :: session where
  "sessionEmpty = \<lparr>basePrice = 100, activeOrders = []\<rparr>"

definition exchangeRej :: exchange where
  "exchangeRej = exchangeW\<lparr>placeSpotOrder :=
     (\<lambda>sd q p. if sd = BUY then Inl (ApiError ''rejected'') else Inr 43)\<rparr>"

definition exchangeSellRej :: exchange where
  "exchangeSellRej = exchangeW\<lparr>placeSpotOrder :=
     (\<lambda>sd q p. if sd = SELL then Inl (ApiError ''rejected'') else Inr 42)\<rparr>"


text \<open>The same symbol with a minimum notional of 1000.\<close>

definition filtersBig :: filters where
  "filtersBig = filtersW\<lparr>minNotional := 1000\<rparr>"

text \<open>
  An exchange that knows the symbol DOGEUSDT only, quotes 100 and reports no open order;
  a supervisor that holds the credentials of user 1 and has started no loop; the
  message \<open>!setpair DOGEUSDT\<close> of user 1, the same command for an unknown symbol, and the
  loop that the first message starts.
\<close>

definition startupW :: startup where
  "startupW = \<lparr>getTradingPairInfo =
                   (\<lambda>symbol. if symbol = Some ''DOGEUSDT'' then Inr filtersW
                              else Inl (ApiError ''Trading pair not found.'')),
                getStartPrice = (\<lambda>symbol. Inr 100),
                fetchActiveOrders = (\<lambda>key secret symbol. Inr [])\<rparr>"

definition supervisorW :: supervisor where
  "supervisorW = \<lparr>userTradingData = [1 \<mapsto> \<lparr>apiKey = ''key'', apiSecret = ''secret''\<rparr>],
                   intervals = [], sent = []\<rparr>"

definition messageW :: message where
  "messageW = \<lparr>author = 1, content = ''!setpair DOGEUSDT'', channel = 5\<rparr>"

definition messageBad :: message where
  "messageBad = \<lparr>author = 1, content = ''!setpair NOPE'', channel = 5\<rparr>"

definition botW :: bot where
  "botW = \<lparr>botKey = ''key'', botSecret = ''secret'', botSymbol = Some ''DOGEUSDT'', botChannel = 5,
            botFilters = filtersW, botSession = \<lparr>basePrice = 100, activeOrders = []\<rparr>\<rparr>"

section \<open>Shared lemmas\<close>

lemma splice1_append: "splice1 (length zs) (zs @ x # ys) = zs @ ys"
  by (simp add: splice1_def)

lemma adjustQuantity_ge_min: "m \<le> adjustQuantity q st m"
  by (simp add: adjustQuantity_def Let_def)

section \<open>Rounding is monotone\<close>

text \<open>
  The rounding \<open>fl\<close> keeps a positive number inside its binade, so it preserves the order
  of non-negative numbers; hence the product \<open>mulN\<close> is monotone on them.
\<close>

lemma pow2_powi: "pow2 e = power_int 2 e"
  by (simp add: pow2_def power_int_def power_one_over)

lemma pow2_pos: "0 < pow2 e"
  by (simp add: pow2_powi)

lemma pow2_add: "pow2 (a + b) = pow2 a * pow2 b"
  by (simp add: pow2_powi power_int_add)

lemma pow2_mono: "a \<le> b \<Longrightarrow> pow2 a \<le> pow2 b"
  by (simp add: pow2_powi power_int_increasing)

lemma pow2_nat: "0 \<le> k \<Longrightarrow> pow2 k = 2 ^ nat k"
  by (simp add: pow2_def)

lemma ilog2_bounds:
  assumes "0 < x"
  shows "pow2 (ilog2 x) \<le> x \<and> x < pow2 (ilog2 x + 1)"
proof -
  obtain p q where pq: "quotient_of x = (p, q)" by (cases "quotient_of x") auto
  then have q: "0 < q" and x: "x = of_int p / of_int q"
    by (auto simp: quotient_of_denom_pos quotient_of_div)
  with assms have p: "0 < p" by (simp add: zero_less_divide_iff)
  let ?bp = "bitlen p" and ?bq = "bitlen q"
  from bitlen_bounds[OF p] have bp: "2 ^ nat (?bp - 1) \<le> p" "p < 2 ^ nat ?bp" by auto
  from bitlen_bounds[OF q] have bq: "2 ^ nat (?bq - 1) \<le> q" "q < 2 ^ nat ?bq" by auto
  from p q have b1: "1 \<le> ?bp" "1 \<le> ?bq"
    using bitlen_eq_zero_iff[of p] bitlen_eq_zero_iff[of q] bitlen_nonneg[of p] bitlen_nonneg[of q]
    by linarith+
  have "(of_int (2 ^ nat (?bp - 1)) :: rat) \<le> of_int p" "(of_int p :: rat) < of_int (2 ^ nat ?bp)"
    using bp by (simp_all only: of_int_le_iff of_int_less_iff)
  then have P1: "pow2 (?bp - 1) \<le> of_int p" and P2: "(of_int p :: rat) < pow2 ?bp"
    using b1 by (simp_all add: pow2_nat)
  have "(of_int (2 ^ nat (?bq - 1)) :: rat) \<le> of_int q" "(of_int q :: rat) < of_int (2 ^ nat ?bq)"
    using bq by (simp_all only: of_int_le_iff of_int_less_iff)
  then have Q1: "pow2 (?bq - 1) \<le> of_int q" and Q2: "(of_int q :: rat) < pow2 ?bq"
    using b1 by (simp_all add: pow2_nat)
  have qpos: "(0::rat) < of_int q" using q by simp
  have up: "x < pow2 (?bp - ?bq + 1)"
  proof -
    have "of_int p < pow2 ?bp" by (rule P2)
    also have "pow2 ?bp = pow2 (?bp - ?bq + 1) * pow2 (?bq - 1)"
      by (simp flip: pow2_add)
    also have "\<dots> \<le> pow2 (?bp - ?bq + 1) * of_int q"
      using Q1 pow2_pos[of "?bp - ?bq + 1"] by (simp add: mult_left_mono)
    finally show ?thesis using qpos by (simp add: x pos_divide_less_eq)
  qed
  have low: "pow2 (?bp - ?bq - 1) < x"
  proof -
    have "pow2 (?bp - ?bq - 1) * of_int q < pow2 (?bp - ?bq - 1) * pow2 ?bq"
      using Q2 pow2_pos[of "?bp - ?bq - 1"] by (simp add: mult_strict_left_mono)
    also have "\<dots> = pow2 (?bp - 1)" by (simp flip: pow2_add)
    also have "\<dots> \<le> of_int p" by (rule P1)
    finally show ?thesis using qpos by (simp add: x pos_less_divide_eq)
  qed
  show ?thesis
  proof (cases "pow2 (?bp - ?bq) \<le> x")
    case True
    with pq up show ?thesis by (simp add: ilog2_def)
  next
    case False
    with pq low show ?thesis by (simp add: ilog2_def)
  qed
qed

lemma ilog2_mono:
  assumes "0 < x" "x \<le> y"
  shows "ilog2 x \<le> ilog2 y"
proof (rule ccontr)
  assume "\<not> ilog2 x \<le> ilog2 y"
  then have "ilog2 y + 1 \<le> ilog2 x" by simp
  then have "pow2 (ilog2 y + 1) \<le> pow2 (ilog2 x)" by (rule pow2_mono)
  with ilog2_bounds[of x] ilog2_bounds[of y] assms show False by simp
qed

lemma roundEven_cases:
  "roundEven y = \<lfloor>y\<rfloor> \<and> y - of_int \<lfloor>y\<rfloor> \<le> 1 / 2
   \<or> roundEven y = \<lfloor>y\<rfloor> + 1 \<and> 1 / 2 \<le> y - of_int \<lfloor>y\<rfloor>"
  by (auto simp: roundEven_def Let_def)

lemma roundEven_of_int: "roundEven (of_int k) = k"
  by (simp add: roundEven_def)

lemma roundEven_mono:
  assumes "y \<le> z"
  shows "roundEven y \<le> roundEven z"
proof (cases "\<lfloor>y\<rfloor> = \<lfloor>z\<rfloor>")
  case True
  with assms show ?thesis
    by (auto simp: roundEven_def Let_def)
next
  case False
  with assms have "\<lfloor>y\<rfloor> + 1 \<le> \<lfloor>z\<rfloor>" using floor_mono[OF assms] by simp
  moreover have "roundEven y \<le> \<lfloor>y\<rfloor> + 1" using roundEven_cases[of y] by auto
  moreover have "\<lfloor>z\<rfloor> \<le> roundEven z" using roundEven_cases[of z] by auto
  ultimately show ?thesis by simp
qed

lemma fl_pos_bounds:
  assumes "0 < x"
  shows "pow2 (ilog2 x) \<le> fl x \<and> fl x \<le> pow2 (ilog2 x + 1)"
proof -
  let ?e = "ilog2 x"
  let ?u = "pow2 (?e - 52)"
  have u: "0 < ?u" by (rule pow2_pos)
  have flx: "fl x = of_int (roundEven (x / ?u)) * ?u"
    using assms by (simp add: fl_def Let_def)
  have "pow2 ?e = pow2 (52 + (?e - 52))" by (rule arg_cong[where f = pow2]) simp
  also have "\<dots> = pow2 52 * ?u" by (rule pow2_add)
  finally have e1: "pow2 ?e = 2 ^ 52 * ?u" by (simp add: pow2_def)
  have "pow2 (?e + 1) = pow2 (53 + (?e - 52))" by (rule arg_cong[where f = pow2]) simp
  also have "\<dots> = pow2 53 * ?u" by (rule pow2_add)
  finally have e2: "pow2 (?e + 1) = 2 ^ 53 * ?u" by (simp add: pow2_def)
  from ilog2_bounds[OF assms] have "2 ^ 52 * ?u \<le> x" "x \<le> 2 ^ 53 * ?u"
    by (simp_all add: e1 e2)
  with u have "of_int (2 ^ 52) \<le> x / ?u" "x / ?u \<le> of_int (2 ^ 53)"
    by (simp_all add: pos_le_divide_eq pos_divide_le_eq)
  then have "roundEven (of_int (2 ^ 52)) \<le> roundEven (x / ?u)"
    "roundEven (x / ?u) \<le> roundEven (of_int (2 ^ 53))"
    by (simp_all only: roundEven_mono)
  then have "(2 ^ 52 :: int) \<le> roundEven (x / ?u)" "roundEven (x / ?u) \<le> (2 ^ 53 :: int)"
    by (simp_all only: roundEven_of_int)
  then have "(of_int (2 ^ 52) :: rat) \<le> of_int (roundEven (x / ?u))"
    "(of_int (roundEven (x / ?u)) :: rat) \<le> of_int (2 ^ 53)"
    by (simp_all only: of_int_le_iff)
  with u have "of_int (2 ^ 52) * ?u \<le> fl x" "fl x \<le> of_int (2 ^ 53) * ?u"
    by (simp_all only: flx mult_le_cancel_right_pos)
  then show ?thesis by (simp add: e1 e2)
qed

lemma fl_mono_pos:
  assumes "0 < x" "x \<le> y"
  shows "fl x \<le> fl y"
proof (cases "ilog2 x = ilog2 y")
  case True
  let ?u = "pow2 (ilog2 y - 52)"
  have u: "0 < ?u" by (rule pow2_pos)
  from assms u have "x / ?u \<le> y / ?u" by (simp add: divide_right_mono)
  then have "roundEven (x / ?u) \<le> roundEven (y / ?u)" by (rule roundEven_mono)
  then have "(of_int (roundEven (x / ?u)) :: rat) * ?u \<le> of_int (roundEven (y / ?u)) * ?u"
    using u by (simp only: mult_le_cancel_right_pos of_int_le_iff)
  with assms True show ?thesis by (simp add: fl_def Let_def)
next
  case False
  with ilog2_mono[OF assms] have "ilog2 x + 1 \<le> ilog2 y" by simp
  then have "pow2 (ilog2 x + 1) \<le> pow2 (ilog2 y)" by (rule pow2_mono)
  with fl_pos_bounds[of x] fl_pos_bounds[of y] assms show ?thesis by simp
qed

lemma fl_nonneg: "0 \<le> x \<Longrightarrow> 0 \<le> fl x"
proof (cases "x = 0")
  case True
  then show ?thesis by (simp add: fl_def)
next
  case False
  assume "0 \<le> x"
  with False have "0 < x" by simp
  from fl_pos_bounds[OF this] pow2_pos[of "ilog2 x"] show ?thesis by simp
qed

lemma fl_mono_nonneg:
  assumes "0 \<le> x" "x \<le> y"
  shows "fl x \<le> fl y"
proof (cases "x = 0")
  case True
  with assms fl_nonneg[of y] show ?thesis by (simp add: fl_def)
next
  case False
  with assms have "0 < x" by simp
  then show ?thesis using assms(2) by (rule fl_mono_pos)
qed

lemma mulN_mono:
  assumes "0 \<le> a" "a \<le> a'" "0 \<le> b" "b \<le> b'"
  shows "mulN a b \<le> mulN a' b'"
proof -
  from assms have "0 \<le> a * b" "a * b \<le> a' * b'"
    by (simp_all add: mult_mono)
  then show ?thesis unfolding mulN_def by (rule fl_mono_nonneg)
qed

section \<open>Quantization rounds down\<close>

lemma floor_step_le:
  assumes "0 < st" and "divN q st \<le> q / st"
    and "mulN (floorN (divN q st)) st \<le> floorN (divN q st) * st"
  shows "mulN (floorN (divN q st)) st \<le> q"
proof -
  have "floorN (divN q st) \<le> divN q st" by (simp add: floorN_def)
  with assms(2) have "floorN (divN q st) \<le> q / st" by simp
  with assms(1) have "floorN (divN q st) * st \<le> q" by (simp add: pos_le_divide_eq)
  with assms(3) show ?thesis by simp
qed

lemma adjustQuantity_le_max:
  assumes "0 < st" and "divN q st \<le> q / st"
    and "mulN (floorN (divN q st)) st \<le> floorN (divN q st) * st"
  shows "adjustQuantity q st m \<le> max q m"
  using floor_step_le[OF assms] by (simp add: adjustQuantity_def Let_def max_def)

lemma adjustPrice_eq: "adjustPrice = adjustQuantity"
  by (intro ext) (simp add: adjustPrice_def adjustQuantity_def)

text \<open>
  C5 as stated fails: the quantizers clamp the floored value up to the minimum, so a raw
  quantity 0.5 with step 1 and minimum 1 becomes 1.
\<close>

theorem clamp_exceeds_raw_counterexample:
  "\<not> ((0::rat) < 1 \<longrightarrow> adjustQuantity (1 / 2) 1 1 \<le> 1 / 2)"
  by code_simp

text \<open>
  Apart from the clamp, the product \<open>floor(raw / step) * step\<close> is itself rounded: for the
  binary64 values of 1.7 and 0.1 the quotient rounds to 17 and the product to
  1.7000000000000002, above the raw value, with no clamping involved.
\<close>

lemma floor_product_rounds_up_example:
  "fl (17 / 10) < adjustQuantity (fl (17 / 10)) (fl (1 / 10)) (fl (1 / 10))
   \<and> fl (1 / 10) \<le> fl (17 / 10)"
  by code_simp

text \<open>
  C5, amended: for positive \<open>stepSize\<close> and \<open>tickSize\<close>, whenever neither the quotient
  \<open>raw / step\<close> nor the product \<open>floor(raw / step) * step\<close> is rounded upwards, the
  quantized value never exceeds the larger of the raw value and the minimum (so it
  never exceeds a raw value that is at least the minimum), and for non-negative
  minimums the notional after quantization, exact or as the code computes it, never
  exceeds the notional of the raw request taken with the same minimums.
\<close>

theorem quantize_rounds_down:
  assumes "0 < st" and "0 < tk"
    and "divN q st \<le> q / st"
    and "mulN (floorN (divN q st)) st \<le> floorN (divN q st) * st"
    and "divN p tk \<le> p / tk"
    and "mulN (floorN (divN p tk)) tk \<le> floorN (divN p tk) * tk"
  shows "adjustQuantity q st mq \<le> max q mq
     \<and> adjustPrice p tk mp \<le> max p mp
     \<and> (mq \<le> q \<longrightarrow> adjustQuantity q st mq \<le> q)
     \<and> (mp \<le> p \<longrightarrow> adjustPrice p tk mp \<le> p)
     \<and> (0 \<le> mq \<and> 0 \<le> mp \<longrightarrow>
          adjustQuantity q st mq * adjustPrice p tk mp \<le> max q mq * max p mp
          \<and> (isValidNotional (adjustQuantity q st mq) (adjustPrice p tk mp) mn
               \<longrightarrow> isValidNotional (max q mq) (max p mp) mn))"
proof -
  let ?q = "adjustQuantity q st mq" and ?p = "adjustPrice p tk mp"
  have a: "?q \<le> max q mq" using assms(1,3,4) by (rule adjustQuantity_le_max)
  have b: "?p \<le> max p mp"
    using adjustQuantity_le_max[OF assms(2,5,6)] by (simp add: adjustPrice_eq)
  have lq: "mq \<le> ?q" by (rule adjustQuantity_ge_min)
  have lp: "mp \<le> ?p" using adjustQuantity_ge_min[of mp p tk] by (simp add: adjustPrice_eq)
  have n: "?q * ?p \<le> max q mq * max p mp
           \<and> (isValidNotional ?q ?p mn \<longrightarrow> isValidNotional (max q mq) (max p mp) mn)"
    if "0 \<le> mq \<and> 0 \<le> mp"
  proof -
    from that lq lp have pos: "0 \<le> ?q" "0 \<le> ?p" by simp_all
    from pos a b have "?q * ?p \<le> max q mq * max p mp" by (simp add: mult_mono)
    moreover from mulN_mono[OF pos(1) a pos(2) b]
    have "isValidNotional ?q ?p mn \<longrightarrow> isValidNotional (max q mq) (max p mp) mn"
      by (simp add: isValidNotional_def)
    ultimately show ?thesis by simp
  qed
  from a b n show ?thesis by (auto simp: max_def)
qed

theorem quantize_rounds_down_witness:
  "(0::rat) < 2 \<and> (0::rat) < 1 / 2
   \<and> divN 5 2 \<le> 5 / 2 \<and> (1::rat) \<le> 5
   \<and> adjustQuantity 5 2 1 = 4 \<and> adjustQuantity 5 2 1 \<le> 5
   \<and> adjustPrice 7 (1 / 2) (1 / 2) \<le> 7
   \<and> adjustQuantity 5 2 1 * adjustPrice 7 (1 / 2) (1 / 2) \<le> max 5 1 * max 7 (1 / 2)
   \<and> isValidNotional (adjustQuantity 5 2 1) (adjustPrice 7 (1 / 2) (1 / 2)) 20
   \<and> isValidNotional (max 5 1) (max 7 (1 / 2)) 20"
proof -
  have s: "(0::rat) < 2" "(0::rat) < 1 / 2" by simp_all
  have e: "divN 5 2 \<le> 5 / 2" "mulN (floorN (divN 5 2)) 2 \<le> floorN (divN 5 2) * 2"
    "divN 7 (1 / 2) \<le> 7 / (1 / 2)"
    "mulN (floorN (divN 7 (1 / 2))) (1 / 2) \<le> floorN (divN 7 (1 / 2)) * (1 / 2)"
    by code_simp+
  have m: "(1::rat) \<le> 5" "(1 / 2 :: rat) \<le> 7" "(0::rat) \<le> 1 \<and> (0::rat) \<le> 1 / 2" by simp_all
  have v: "adjustQuantity 5 2 1 = 4"
    and n: "isValidNotional (adjustQuantity 5 2 1) (adjustPrice 7 (1 / 2) (1 / 2)) 20"
    by code_simp+
  note t = quantize_rounds_down[OF s e, of 1 "1 / 2" 20]
  from t m n s e(1) v show ?thesis by simp
qed

section \<open>Idempotence of the quantizers\<close>

text \<open>
  C8: the quantizers are idempotent, \<open>quantize (quantize x) = quantize x\<close>. The code is
  not: with the binary64 values of 8.2 and 0.1 the quotient \<open>8.2 / 0.1\<close> rounds to
  81.99999999999999, so the first application returns 8.1 (81 steps); \<open>8.1 / 0.1\<close>
  rounds to 80.99999999999999, so the second application returns 8 (80 steps).
\<close>

theorem adjustQuantity_not_idempotent:
  "adjustQuantity (fl (82 / 10)) (fl (1 / 10)) (fl (1 / 10)) = fl (81 / 10)
   \<and> adjustQuantity (fl (81 / 10)) (fl (1 / 10)) (fl (1 / 10)) = 8
   \<and> fl (81 / 10) \<noteq> 8"
  by code_simp

text \<open>
  Where the product of the first application and the quotient and product of the second
  are exact, a second application of \<open>adjustQuantity\<close> changes nothing: the failure of
  idempotence comes from rounding alone.
\<close>

lemma adjustQuantity_idempotent_exact:
  assumes "0 < st"
    and "mulN (floorN (divN x st)) st = floorN (divN x st) * st"
    and "a = adjustQuantity x st m"
    and "divN a st = a / st"
    and "mulN (floorN (a / st)) st = floorN (a / st) * st"
  shows "adjustQuantity a st m = a"
proof (cases "mulN (floorN (divN x st)) st < m")
  case True
  then have am: "a = m" by (simp add: assms(3) adjustQuantity_def Let_def)
  from am assms(4,5) have ex: "divN m st = m / st"
    "mulN (floorN (m / st)) st = floorN (m / st) * st" by simp_all
  have "floorN (m / st) \<le> m / st" by (simp add: floorN_def)
  with assms(1) have "floorN (m / st) * st \<le> m" by (simp add: pos_le_divide_eq)
  then have "adjustQuantity m st m = m"
    by (auto simp add: adjustQuantity_def Let_def ex)
  with am show ?thesis by simp
next
  case False
  let ?k = "floorN (divN x st)"
  from False have ak: "a = ?k * st" and keep: "\<not> ?k * st < m"
    by (simp_all add: assms(2,3) adjustQuantity_def Let_def)
  from assms(1) ak have quot: "a / st = ?k" by simp
  have fk: "floorN ?k = ?k" by (simp add: floorN_def)
  from assms(4) quot have d: "divN a st = ?k" by simp
  have "mulN (floorN (divN a st)) st = ?k * st"
    by (simp only: d fk assms(2))
  then have "adjustQuantity a st m = ?k * st"
    using keep by (simp add: adjustQuantity_def Let_def)
  with ak show ?thesis by simp
qed

section \<open>The quantity guard of the second variant\<close>

text \<open>
  C10: in the second variant of GridBot.js, \<open>adjustQuantity\<close> returns a value that is at
  least \<open>minQty\<close> for every input, so the test \<open>quantity < minQty\<close> that follows the
  quantization is never true and a tick never ends in the branch that skips the order.
\<close>

theorem tick2_quantity_guard_dead:
  "m \<le> adjustQuantity q st m \<and> \<not> adjustQuantity q st m < m
   \<and> snd (snd (tick2 ex f c s)) \<noteq> QuantitySkipped"
proof -
  have a: "\<not> adjustQuantity a b (minQty f) < minQty f" for a b
    using adjustQuantity_ge_min[of "minQty f" a b] by simp
  have "snd (snd (tick2 ex f c s)) \<noteq> QuantitySkipped"
    by (simp add: tick2_def Let_def a split: sum.split prod.split option.split)
  then show ?thesis
    using adjustQuantity_ge_min[of m q st] by simp
qed

theorem tick2_quantity_guard_dead_witness:
  "(1 / 8 :: rat) \<le> adjustQuantity (divN 200 99) (1 / 8) (1 / 8)
   \<and> \<not> adjustQuantity (divN 200 99) (1 / 8) (1 / 8) < 1 / 8
   \<and> snd (snd (tick2 exchangeW filtersW configW sessionW)) \<noteq> QuantitySkipped"
  by (rule tick2_quantity_guard_dead)

section \<open>The fill sweep\<close>

text \<open>
  The sweep of the first variant, started at the end of a ledger \<open>xs\<close> that is followed
  by already visited orders \<open>ys\<close>: it leaves \<open>ys\<close> alone, keeps every order of \<open>xs\<close> that
  stays, and when it ends without an error it has removed exactly the others and sent
  one sell order for each, last order first.
\<close>

lemma sweep1_split:
  "sweep1 ex f (length xs) (xs @ ys) sells = (os, sells', err) \<Longrightarrow>
   \<exists>xs'. os = xs' @ ys \<and> subseq (filter (stays ex) xs) xs' \<and> subseq xs' xs
     \<and> (err = None \<longrightarrow> xs' = filter (stays ex) xs
           \<and> sells' = sells @ map (sellOf1 f) (rev (filter (\<lambda>order. \<not> stays ex order) xs)))"
proof (induction xs arbitrary: ys sells os sells' err rule: rev_induct)
  case Nil
  then show ?case by auto
next
  case (snoc x zs)
  show ?case
  proof (cases "checkOrderStatus ex (orderId x)")
    case (Inl e)
    with snoc.prems have "os = (zs @ [x]) @ ys" "err = Some e" by (auto simp: Let_def)
    then show ?thesis by auto
  next
    case (Inr status)
    show ?thesis
    proof (cases "status = ''FILLED''")
      case True
      then have gone: "\<not> stays ex x" using Inr by (simp add: stays_def)
      show ?thesis
      proof (cases "placeSpotOrder ex SELL (quantity x)
                      (adjustPrice (mulN (price x) lit_1_03012) (tickSize f) (minPrice f))")
        case (Inl e)
        with snoc.prems Inr True have "os = zs @ ys" "err = Some e"
          by (auto simp: Let_def splice1_append)
        with gone show ?thesis by (auto simp: subseq_rev_drop_many)
      next
        case sold: (Inr sid)
        with snoc.prems Inr True
        have "sweep1 ex f (length zs) (zs @ ys) (sells @ [sellOf1 f x]) = (os, sells', err)"
          by (auto simp: Let_def splice1_append sellOf1_def)
        from snoc.IH[OF this] obtain xs' where
          "os = xs' @ ys" "subseq (filter (stays ex) zs) xs'" "subseq xs' zs"
          "err = None \<longrightarrow> xs' = filter (stays ex) zs
             \<and> sells' = (sells @ [sellOf1 f x])
                  @ map (sellOf1 f) (rev (filter (\<lambda>order. \<not> stays ex order) zs))"
          by blast
        with gone show ?thesis by (auto simp: subseq_rev_drop_many)
      qed
    next
      case False
      then have kept: "stays ex x" using Inr by (auto simp: stays_def)
      from snoc.prems Inr False
      have "sweep1 ex f (length zs) (zs @ (x # ys)) sells = (os, sells', err)"
        by (auto simp: Let_def)
      from snoc.IH[OF this] obtain xs' where
          "os = xs' @ x # ys" "subseq (filter (stays ex) zs) xs'" "subseq xs' zs"
          "err = None \<longrightarrow> xs' = filter (stays ex) zs
             \<and> sells' = sells @ map (sellOf1 f) (rev (filter (\<lambda>order. \<not> stays ex order) zs))"
        by blast
      with kept show ?thesis
        by (intro exI[of _ "xs' @ [x]"]) (auto simp: subseq_append')
    qed
  qed
qed

lemma sweep1_ledger:
  assumes "sweep1 ex f (length orders) orders [] = (orders', sells, err)"
  shows "subseq (filter (stays ex) orders) orders'" and "subseq orders' orders"
    and "err = None \<Longrightarrow> orders' = filter (stays ex) orders"
    and "err = None \<Longrightarrow> sells = map (sellOf1 f) (rev (filter (\<lambda>order. \<not> stays ex order) orders))"
  using sweep1_split[of ex f orders "[]" "[]" orders' sells err] assms by auto

text \<open>
  The sweep of the second variant treats the ledger in the same way; only the price of
  its sell orders differs.
\<close>

lemma sweep2_split:
  "sweep2 ex (length xs) (xs @ ys) sells = (os, sells', err) \<Longrightarrow>
   \<exists>xs'. os = xs' @ ys \<and> subseq (filter (stays ex) xs) xs' \<and> subseq xs' xs
     \<and> (err = None \<longrightarrow> xs' = filter (stays ex) xs
           \<and> sells' = sells @ map (sellOf2) (rev (filter (\<lambda>order. \<not> stays ex order) xs)))"
proof (induction xs arbitrary: ys sells os sells' err rule: rev_induct)
  case Nil
  then show ?case by auto
next
  case (snoc x zs)
  show ?case
  proof (cases "checkOrderStatus ex (orderId x)")
    case (Inl e)
    with snoc.prems have "os = (zs @ [x]) @ ys" "err = Some e" by (auto simp: Let_def)
    then show ?thesis by auto
  next
    case (Inr status)
    show ?thesis
    proof (cases "status = ''FILLED''")
      case True
      then have gone: "\<not> stays ex x" using Inr by (simp add: stays_def)
      show ?thesis
      proof (cases "placeSpotOrder ex SELL (quantity x) (mulN (price x) lit_3_012)")
        case (Inl e)
        with snoc.prems Inr True have "os = zs @ ys" "err = Some e"
          by (auto simp: Let_def splice1_append)
        with gone show ?thesis by (auto simp: subseq_rev_drop_many)
      next
        case sold: (Inr sid)
        with snoc.prems Inr True
        have "sweep2 ex (length zs) (zs @ ys) (sells @ [sellOf2 x]) = (os, sells', err)"
          by (auto simp: Let_def splice1_append sellOf2_def)
        from snoc.IH[OF this] obtain xs' where
          "os = xs' @ ys" "subseq (filter (stays ex) zs) xs'" "subseq xs' zs"
          "err = None \<longrightarrow> xs' = filter (stays ex) zs
             \<and> sells' = (sells @ [sellOf2 x])
                  @ map (sellOf2) (rev (filter (\<lambda>order. \<not> stays ex order) zs))"
          by blast
        with gone show ?thesis by (auto simp: subseq_rev_drop_many)
      qed
    next
      case False
      then have kept: "stays ex x" using Inr by (auto simp: stays_def)
      from snoc.prems Inr False
      have "sweep2 ex (length zs) (zs @ (x # ys)) sells = (os, sells', err)"
        by (auto simp: Let_def)
      from snoc.IH[OF this] obtain xs' where
          "os = xs' @ x # ys" "subseq (filter (stays ex) zs) xs'" "subseq xs' zs"
          "err = None \<longrightarrow> xs' = filter (stays ex) zs
             \<and> sells' = sells @ map (sellOf2) (rev (filter (\<lambda>order. \<not> stays ex order) zs))"
        by blast
      with kept show ?thesis
        by (intro exI[of _ "xs' @ [x]"]) (auto simp: subseq_append')
    qed
  qed
qed

lemma sweep2_ledger:
  assumes "sweep2 ex (length orders) orders [] = (orders', sells, err)"
  shows "subseq (filter (stays ex) orders) orders'" and "subseq orders' orders"
    and "err = None \<Longrightarrow> orders' = filter (stays ex) orders"
    and "err = None \<Longrightarrow> sells = map (sellOf2) (rev (filter (\<lambda>order. \<not> stays ex order) orders))"
  using sweep2_split[of ex orders "[]" "[]" orders' sells err] assms by auto

lemma sweepD_throws:
  "sweepD ex f n orders sells =
     (orders, sells,
      if n = 0 then None
      else if n \<le> length orders then Some (ReferenceError ''checkOrderStatus is not defined'')
      else Some (TypeError ''Cannot read properties of undefined''))"
  by (cases n) (auto simp: checkOrderStatusD_def Let_def)

lemma sweepD_ledger:
  "sweepD ex f (length orders) orders [] =
     (orders, [], if orders = [] then None
                  else Some (ReferenceError ''checkOrderStatus is not defined''))"
  by (simp add: sweepD_throws)





section \<open>The shape of a tick\<close>

lemma tick1_price_error:
  "getCurrentPrice ex = Inl e \<Longrightarrow> tick1 ex f c s = (s, [], Failed e)"
  by (simp add: tick1_def)

lemma tick1_sweep_error:
  assumes "getCurrentPrice ex = Inr p"
    and "sweep1 ex f (length (activeOrders s)) (activeOrders s) [] = (orders, sells, Some e)"
  shows "tick1 ex f c s = (s\<lparr>activeOrders := orders\<rparr>, sells, Failed e)"
  using assms by (simp add: tick1_def)

lemma sweep1_completes:
  assumes "snd (snd (sweep1 ex f (length orders) orders [])) = None"
  shows "sweep1 ex f (length orders) orders [] =
           (filter (stays ex) orders,
            map (sellOf1 f) (rev (filter (\<lambda>order. \<not> stays ex order) orders)), None)"
proof -
  obtain orders' sells err where r: "sweep1 ex f (length orders) orders [] = (orders', sells, err)"
    by (cases "sweep1 ex f (length orders) orders []") auto
  with assms have "err = None" by simp
  with sweep1_ledger(3,4)[OF r] r show ?thesis by simp
qed

lemma tick1_rise:
  assumes "getCurrentPrice ex = Inr p"
    and "snd (snd (sweep1 ex f (length (activeOrders s)) (activeOrders s) [])) = None"
    and "\<not> (\<not> noBuys c \<and> percentageDrop c \<le> priceDrop (basePrice s) p)"
    and "percentageRise c \<le> priceRise (basePrice s) p"
  shows "tick1 ex f c s =
           (s\<lparr>activeOrders := filter (stays ex) (activeOrders s), basePrice := p\<rparr>,
            map (sellOf1 f) (rev (filter (\<lambda>order. \<not> stays ex order) (activeOrders s))),
            BaseRaised)"
  using assms(1,3,4) sweep1_completes[OF assms(2)] by (auto simp add: tick1_def)

lemma tickD_price_error:
  "getCurrentPrice ex = Inl e \<Longrightarrow> tickD ex f s = (s, [], Failed e)"
  by (simp add: tickD_def)

lemma tickD_nonempty:
  "getCurrentPrice ex = Inr p \<Longrightarrow> activeOrders s \<noteq> [] \<Longrightarrow>
   tickD ex f s = (s, [], Failed (ReferenceError ''checkOrderStatus is not defined''))"
  by (simp add: tickD_def sweepD_ledger)

lemma tickD_empty:
  "getCurrentPrice ex = Inr p \<Longrightarrow> activeOrders s = [] \<Longrightarrow>
   tickD ex f s =
     (if lit_0_60 \<le> priceDrop (basePrice s) p then
        (let q = adjustQuantity (divN 2 p) (stepSize f) (minQty f);
             pr = adjustPrice (mulN p lit_0_99) (tickSize f) (minPrice f)
         in if minNotional f \<le> mulN q pr then
              (case placeSpotOrder ex BUY q pr of
                 Inl e \<Rightarrow> (s, [], Failed e)
               | Inr buyId \<Rightarrow>
                   (s\<lparr>activeOrders := [\<lparr>orderId = buyId, quantity = q, price = pr\<rparr>],
                      basePrice := p\<rparr>, [(BUY, q, pr)], BuyPlaced buyId))
            else (s, [], NotionalSkipped))
      else if lit_1_2 \<le> priceRise (basePrice s) p then (s\<lparr>basePrice := p\<rparr>, [], BaseRaised)
      else (s, [], Unchanged))"
  by (simp add: tickD_def sweepD_ledger Let_def split: sum.split)

lemma filter_all_stay: "\<forall>order \<in> set orders. stays ex order \<Longrightarrow>
  filter (stays ex) orders = orders \<and> filter (\<lambda>order. \<not> stays ex order) orders = []"
  by (induction orders) auto

lemma sweep1_answers:
  "sweep1 ex f (length xs) (xs @ ys) sells = (os, sells', None) \<Longrightarrow>
   \<forall>order \<in> set xs. \<exists>status. checkOrderStatus ex (orderId order) = Inr status"
proof (induction xs arbitrary: ys sells rule: rev_induct)
  case Nil
  then show ?case by simp
next
  case (snoc x zs)
  from snoc.prems obtain status where st: "checkOrderStatus ex (orderId x) = Inr status"
    by (cases "checkOrderStatus ex (orderId x)") (auto simp: Let_def)
  have "\<exists>ys' sells0. sweep1 ex f (length zs) (zs @ ys') sells0 = (os, sells', None)"
  proof (cases "status = ''FILLED''")
    case True
    with snoc.prems st show ?thesis
      by (auto simp: Let_def splice1_append split: sum.splits)
  next
    case False
    with snoc.prems st have "sweep1 ex f (length zs) (zs @ (x # ys)) sells = (os, sells', None)"
      by (auto simp: Let_def)
    then show ?thesis by blast
  qed
  then obtain ys' sells0 where "sweep1 ex f (length zs) (zs @ ys') sells0 = (os, sells', None)"
    by blast
  from snoc.IH[OF this] st show ?case by auto
qed

lemma sweep1_sells:
  "sweep1 ex f n orders sells = (os, sells', err) \<Longrightarrow>
   \<exists>more. sells' = sells @ more \<and> (\<forall>pl \<in> set more. fst pl = SELL)"
proof (induction n arbitrary: orders sells)
  case 0
  then show ?case by simp
next
  case (Suc i)
  show ?case
  proof (cases "i < length orders")
    case False
    with Suc.prems show ?thesis by simp
  next
    case inr: True
    show ?thesis
    proof (cases "checkOrderStatus ex (orderId (orders ! i))")
      case (Inl e)
      with Suc.prems inr show ?thesis by (simp add: Let_def)
    next
      case (Inr status)
      show ?thesis
      proof (cases "status = ''FILLED''")
        case False
        with Suc.prems inr Inr have "sweep1 ex f i orders sells = (os, sells', err)"
          by (simp add: Let_def)
        from Suc.IH[OF this] show ?thesis .
      next
        case True
        show ?thesis
        proof (cases "placeSpotOrder ex SELL (quantity (orders ! i))
                 (adjustPrice (mulN (price (orders ! i)) lit_1_03012) (tickSize f) (minPrice f))")
          case (Inl e)
          with Suc.prems inr Inr True show ?thesis by (simp add: Let_def)
        next
          case sold: (Inr sid)
          with Suc.prems inr Inr True
          have "sweep1 ex f i (splice1 i orders)
                  (sells @ [(SELL, quantity (orders ! i),
                     adjustPrice (mulN (price (orders ! i)) lit_1_03012) (tickSize f) (minPrice f))])
                = (os, sells', err)"
            by (simp add: Let_def)
          from Suc.IH[OF this] show ?thesis by auto
        qed
      qed
    qed
  qed
qed

text \<open>The shape of every tick of the first variant.\<close>

lemma tick1_cases:
  obtains (price_error) e where "getCurrentPrice ex = Inl e" "tick1 ex f c s = (s, [], Failed e)"
  | (sweep_error) p orders sells e where "getCurrentPrice ex = Inr p"
      "sweep1 ex f (length (activeOrders s)) (activeOrders s) [] = (orders, sells, Some e)"
      "tick1 ex f c s = (s\<lparr>activeOrders := orders\<rparr>, sells, Failed e)"
  | (buy_error) p sells e q pr where "getCurrentPrice ex = Inr p"
      "sweep1 ex f (length (activeOrders s)) (activeOrders s) []
         = (filter (stays ex) (activeOrders s), sells, None)"
      "placeSpotOrder ex BUY q pr = Inl e"
      "tick1 ex f c s = (s\<lparr>activeOrders := filter (stays ex) (activeOrders s)\<rparr>, sells, Failed e)"
  | (bought) p sells buyId q pr where "getCurrentPrice ex = Inr p"
      "sweep1 ex f (length (activeOrders s)) (activeOrders s) []
         = (filter (stays ex) (activeOrders s), sells, None)"
      "placeSpotOrder ex BUY q pr = Inr buyId"
      "tick1 ex f c s =
         (s\<lparr>activeOrders := filter (stays ex) (activeOrders s)
                @ [\<lparr>orderId = buyId, quantity = q, price = pr\<rparr>], basePrice := p\<rparr>,
          sells @ [(BUY, q, pr)], BuyPlaced buyId)"
  | (quiet) p sells r b where "getCurrentPrice ex = Inr p"
      "sweep1 ex f (length (activeOrders s)) (activeOrders s) []
         = (filter (stays ex) (activeOrders s), sells, None)"
      "r = NotionalSkipped \<or> r = BaseRaised \<or> r = Unchanged"
      "b = basePrice s \<or> b = p"
      "tick1 ex f c s =
         (s\<lparr>activeOrders := filter (stays ex) (activeOrders s), basePrice := b\<rparr>, sells, r)"
proof (cases "getCurrentPrice ex")
  case (Inl e)
  then show ?thesis using price_error by (simp add: tick1_def)
next
  case (Inr p)
  obtain orders sells err where
    r: "sweep1 ex f (length (activeOrders s)) (activeOrders s) [] = (orders, sells, err)"
    by (cases "sweep1 ex f (length (activeOrders s)) (activeOrders s) []") auto
  show ?thesis
  proof (cases err)
    case (Some e)
    with Inr r show ?thesis using sweep_error[of p orders sells e] by (simp add: tick1_def)
  next
    case None
    with sweep1_ledger(3)[OF r] have o: "orders = filter (stays ex) (activeOrders s)" by simp
    note r' = r[unfolded o None]
    let ?q = "adjustQuantity (divN (investment c) p) (stepSize f) (minQty f)"
    let ?pr = "adjustPrice (mulN p lit_0_99) (tickSize f) (minPrice f)"
    show ?thesis
    proof (cases "\<not> noBuys c \<and> percentageDrop c \<le> priceDrop (basePrice s) p")
      case drop: True
      show ?thesis
      proof (cases "isValidNotional ?q ?pr (minNotional f)")
        case True
        show ?thesis
        proof (cases "placeSpotOrder ex BUY ?q ?pr")
          case (Inl e)
          with Inr r' drop True show ?thesis
            using buy_error[of p sells ?q ?pr e] by (simp add: tick1_def Let_def)
        next
          case bid: (Inr buyId)
          with Inr r' drop True show ?thesis
            using bought[of p sells ?q ?pr buyId] by (simp add: tick1_def Let_def)
        qed
      next
        case False
        with Inr r' drop show ?thesis
          using quiet[of p sells NotionalSkipped "basePrice s"] by (simp add: tick1_def Let_def)
      qed
    next
      case nodrop: False
      show ?thesis
      proof (cases "percentageRise c \<le> priceRise (basePrice s) p")
        case True
        with Inr r' nodrop show ?thesis
          using quiet[of p sells BaseRaised p] by (auto simp add: tick1_def Let_def)
      next
        case False
        with Inr r' nodrop show ?thesis
          using quiet[of p sells Unchanged "basePrice s"] by (auto simp add: tick1_def Let_def)
      qed
    qed
  qed
qed

lemma sweep1_sold:
  "sweep1 ex f (length xs) (xs @ ys) sells = (os, sells', None) \<Longrightarrow>
   \<forall>order \<in> set xs. \<not> stays ex order \<longrightarrow>
     (\<exists>sellId. placeSpotOrder ex SELL (quantity order)
                  (adjustPrice (mulN (price order) lit_1_03012) (tickSize f) (minPrice f))
                = Inr sellId)"
proof (induction xs arbitrary: ys sells rule: rev_induct)
  case Nil
  then show ?case by simp
next
  case (snoc x zs)
  from snoc.prems obtain status where st: "checkOrderStatus ex (orderId x) = Inr status"
    by (cases "checkOrderStatus ex (orderId x)") (auto simp: Let_def)
  show ?case
  proof (cases "status = ''FILLED''")
    case True
    with snoc.prems st obtain sellId where
      sold: "placeSpotOrder ex SELL (quantity x)
               (adjustPrice (mulN (price x) lit_1_03012) (tickSize f) (minPrice f)) = Inr sellId"
      and rest: "sweep1 ex f (length zs) (zs @ ys)
                   (sells @ [(SELL, quantity x,
                      adjustPrice (mulN (price x) lit_1_03012) (tickSize f) (minPrice f))])
                 = (os, sells', None)"
      by (auto simp: Let_def splice1_append split: sum.splits)
    from snoc.IH[OF rest] sold show ?thesis by auto
  next
    case False
    with st have kept: "stays ex x" by (auto simp: stays_def)
    from snoc.prems st False
    have "sweep1 ex f (length zs) (zs @ (x # ys)) sells = (os, sells', None)"
      by (auto simp: Let_def)
    from snoc.IH[OF this] kept show ?thesis by auto
  qed
qed

lemma tick1_quiet_calls:
  assumes "\<forall>e'. snd (snd (tick1 ex f c s)) \<noteq> Failed e'"
  shows "(\<exists>p. getCurrentPrice ex = Inr p)
     \<and> (\<forall>order \<in> set (activeOrders s).
          (\<exists>status. checkOrderStatus ex (orderId order) = Inr status)
          \<and> (\<not> stays ex order \<longrightarrow>
               (\<exists>sellId. placeSpotOrder ex SELL (quantity order)
                            (adjustPrice (mulN (price order) lit_1_03012) (tickSize f) (minPrice f))
                          = Inr sellId)))"
proof -
  have reached: "(\<exists>p. getCurrentPrice ex = Inr p)
     \<and> (\<exists>os sl. sweep1 ex f (length (activeOrders s)) (activeOrders s) [] = (os, sl, None))"
    by (cases rule: tick1_cases[of ex f c s]) (use assms in auto)
  from reached obtain os sl where
    r: "sweep1 ex f (length (activeOrders s)) (activeOrders s) [] = (os, sl, None)" by blast
  from sweep1_answers[of ex f "activeOrders s" "[]" "[]" os sl]
       sweep1_sold[of ex f "activeOrders s" "[]" "[]" os sl] r reached
  show ?thesis by auto
qed

section \<open>Buy on drop\<close>

lemma tick1_drop:
  assumes "getCurrentPrice ex = Inr p"
    and "snd (snd (sweep1 ex f (length (activeOrders s)) (activeOrders s) [])) = None"
    and "\<not> noBuys c" and "percentageDrop c \<le> priceDrop (basePrice s) p"
    and "q = adjustQuantity (divN (investment c) p) (stepSize f) (minQty f)"
    and "pr = adjustPrice (mulN p lit_0_99) (tickSize f) (minPrice f)"
    and "ledger = filter (stays ex) (activeOrders s)"
    and "sells = map (sellOf1 f) (rev (filter (\<lambda>order. \<not> stays ex order) (activeOrders s)))"
  shows "tick1 ex f c s =
           (if isValidNotional q pr (minNotional f) then
              (case placeSpotOrder ex BUY q pr of
                 Inl e \<Rightarrow> (s\<lparr>activeOrders := ledger\<rparr>, sells, Failed e)
               | Inr buyId \<Rightarrow>
                   (s\<lparr>activeOrders := ledger @ [\<lparr>orderId = buyId, quantity = q, price = pr\<rparr>],
                      basePrice := p\<rparr>,
                    sells @ [(BUY, q, pr)], BuyPlaced buyId))
            else (s\<lparr>activeOrders := ledger\<rparr>, sells, NotionalSkipped))"
  using assms(1,3-8) sweep1_completes[OF assms(2)]
  by (simp add: tick1_def Let_def split: sum.split)

lemma sells_no_buy:
  "filter (\<lambda>pl. fst pl = BUY) (map (sellOf1 f) orders) = []"
  by (induction orders) (auto simp: sellOf1_def)

text \<open>
  C1 as stated fails: a tick that buys does not always end with a ledger one entry
  longer than it started. With order 7 filled and the price at 99 (base 100) the sweep
  removes order 7 and the entry step adds the new order, so the ledger has two entries
  before and after.
\<close>

theorem buy_tick_ledger_size_counterexample:
  "\<not> ((getCurrentPrice exchangeW = Inr 99
        \<and> \<not> noBuys configW
        \<and> percentageDrop configW \<le> priceDrop (basePrice sessionW) 99
        \<and> isValidNotional
             (adjustQuantity (divN (investment configW) 99) (stepSize filtersW) (minQty filtersW))
             (adjustPrice (mulN 99 lit_0_99) (tickSize filtersW) (minPrice filtersW))
             (minNotional filtersW))
       \<longrightarrow> length (activeOrders (fst (tick1 exchangeW filtersW configW sessionW)))
             = length (activeOrders sessionW) + 1)"
  by code_simp

text \<open>
  C1, amended: for every tick whose price request succeeds and whose fill sweep ends
  without an error, with buying enabled and a drop of at least \<open>percentageDrop\<close>: if the
  quantized order meets the minimum notional and the exchange accepts it, exactly one
  buy order is placed, the ledger is the ledger the sweep left plus the new order (one
  entry more than the sweep left; one more than at the start of the tick when no order
  answered FILLED) and \<open>basePrice\<close> is the price of this tick; if the exchange refuses
  the order, nothing is added and \<open>basePrice\<close> is unchanged; if the notional test fails,
  no buy order is placed, the ledger is as the sweep left it and \<open>basePrice\<close> is
  unchanged. In discordbot.js the sweep ends without an error exactly when the ledger
  is empty, and buying is always enabled. The base price and the price are divisors and
  are taken to be non-zero.
\<close>

theorem buy_on_drop:
  assumes "getCurrentPrice ex = Inr p" and "basePrice s \<noteq> 0" and "p \<noteq> 0"
    and "q = adjustQuantity (divN (investment c) p) (stepSize f) (minQty f)"
    and "qD = adjustQuantity (divN 2 p) (stepSize f) (minQty f)"
    and "pr = adjustPrice (mulN p lit_0_99) (tickSize f) (minPrice f)"
    and "ledger = filter (stays ex) (activeOrders s)"
    and "sells = map (sellOf1 f) (rev (filter (\<lambda>order. \<not> stays ex order) (activeOrders s)))"
  shows
    "(snd (snd (sweep1 ex f (length (activeOrders s)) (activeOrders s) [])) = None
      \<and> \<not> noBuys c \<and> percentageDrop c \<le> priceDrop (basePrice s) p \<longrightarrow>
        (isValidNotional q pr (minNotional f) \<and> placeSpotOrder ex BUY q pr = Inr buyId \<longrightarrow>
           tick1 ex f c s =
             (s\<lparr>activeOrders := ledger @ [\<lparr>orderId = buyId, quantity = q, price = pr\<rparr>],
                basePrice := p\<rparr>,
              sells @ [(BUY, q, pr)], BuyPlaced buyId)
           \<and> filter (\<lambda>pl. fst pl = BUY) (fst (snd (tick1 ex f c s))) = [(BUY, q, pr)]
           \<and> length (activeOrders (fst (tick1 ex f c s))) = length ledger + 1
           \<and> basePrice (fst (tick1 ex f c s)) = p
           \<and> ((\<forall>order \<in> set (activeOrders s). stays ex order) \<longrightarrow>
                 fst (snd (tick1 ex f c s)) = [(BUY, q, pr)]
                 \<and> length (activeOrders (fst (tick1 ex f c s))) = length (activeOrders s) + 1))
        \<and> (isValidNotional q pr (minNotional f) \<and> placeSpotOrder ex BUY q pr = Inl e \<longrightarrow>
             tick1 ex f c s = (s\<lparr>activeOrders := ledger\<rparr>, sells, Failed e))
        \<and> (\<not> isValidNotional q pr (minNotional f) \<longrightarrow>
             tick1 ex f c s = (s\<lparr>activeOrders := ledger\<rparr>, sells, NotionalSkipped)
             \<and> ((\<forall>order \<in> set (activeOrders s). stays ex order) \<longrightarrow>
                   tick1 ex f c s = (s, [], NotionalSkipped))))
     \<and> (activeOrders s = [] \<and> lit_0_60 \<le> priceDrop (basePrice s) p \<longrightarrow>
          (minNotional f \<le> mulN qD pr \<and> placeSpotOrder ex BUY qD pr = Inr buyId \<longrightarrow>
             tickD ex f s =
               (s\<lparr>activeOrders := [\<lparr>orderId = buyId, quantity = qD, price = pr\<rparr>],
                  basePrice := p\<rparr>,
                [(BUY, qD, pr)], BuyPlaced buyId))
          \<and> (minNotional f \<le> mulN qD pr \<and> placeSpotOrder ex BUY qD pr = Inl e \<longrightarrow>
               tickD ex f s = (s, [], Failed e))
          \<and> (\<not> minNotional f \<le> mulN qD pr \<longrightarrow> tickD ex f s = (s, [], NotionalSkipped)))"
proof (intro conjI impI)
  assume h: "snd (snd (sweep1 ex f (length (activeOrders s)) (activeOrders s) [])) = None
      \<and> \<not> noBuys c \<and> percentageDrop c \<le> priceDrop (basePrice s) p"
  then have t: "tick1 ex f c s =
           (if isValidNotional q pr (minNotional f) then
              (case placeSpotOrder ex BUY q pr of
                 Inl e \<Rightarrow> (s\<lparr>activeOrders := ledger\<rparr>, sells, Failed e)
               | Inr buyId \<Rightarrow>
                   (s\<lparr>activeOrders := ledger @ [\<lparr>orderId = buyId, quantity = q, price = pr\<rparr>],
                      basePrice := p\<rparr>,
                    sells @ [(BUY, q, pr)], BuyPlaced buyId))
            else (s\<lparr>activeOrders := ledger\<rparr>, sells, NotionalSkipped))"
    using tick1_drop[OF assms(1) _ _ _ assms(4) assms(6) assms(7) assms(8)] by blast
  {
    assume ok: "isValidNotional q pr (minNotional f) \<and> placeSpotOrder ex BUY q pr = Inr buyId"
    with t show r: "tick1 ex f c s =
             (s\<lparr>activeOrders := ledger @ [\<lparr>orderId = buyId, quantity = q, price = pr\<rparr>],
                basePrice := p\<rparr>,
              sells @ [(BUY, q, pr)], BuyPlaced buyId)" by simp
    then show "filter (\<lambda>pl. fst pl = BUY) (fst (snd (tick1 ex f c s))) = [(BUY, q, pr)]"
      by (simp add: assms(8) sells_no_buy)
    from r show "length (activeOrders (fst (tick1 ex f c s))) = length ledger + 1" by simp
    from r show "basePrice (fst (tick1 ex f c s)) = p" by simp
    assume "\<forall>order \<in> set (activeOrders s). stays ex order"
    from filter_all_stay[OF this] r
    show "fst (snd (tick1 ex f c s)) = [(BUY, q, pr)]"
      and "length (activeOrders (fst (tick1 ex f c s))) = length (activeOrders s) + 1"
      by (simp_all add: assms(7,8))
  }
  {
    assume "isValidNotional q pr (minNotional f) \<and> placeSpotOrder ex BUY q pr = Inl e"
    with t show "tick1 ex f c s = (s\<lparr>activeOrders := ledger\<rparr>, sells, Failed e)" by simp
  }
  {
    assume no: "\<not> isValidNotional q pr (minNotional f)"
    with t show r: "tick1 ex f c s = (s\<lparr>activeOrders := ledger\<rparr>, sells, NotionalSkipped)" by simp
    assume "\<forall>order \<in> set (activeOrders s). stays ex order"
    from filter_all_stay[OF this] r show "tick1 ex f c s = (s, [], NotionalSkipped)"
      by (simp add: assms(7,8))
  }
next
  assume d: "activeOrders s = [] \<and> lit_0_60 \<le> priceDrop (basePrice s) p"
  note t = tickD_empty[OF assms(1), of s f]
  {
    assume "minNotional f \<le> mulN qD pr \<and> placeSpotOrder ex BUY qD pr = Inr buyId"
    with d t show "tickD ex f s =
               (s\<lparr>activeOrders := [\<lparr>orderId = buyId, quantity = qD, price = pr\<rparr>],
                  basePrice := p\<rparr>,
                [(BUY, qD, pr)], BuyPlaced buyId)"
      by (simp add: assms(5,6) Let_def)
  }
  {
    assume "minNotional f \<le> mulN qD pr \<and> placeSpotOrder ex BUY qD pr = Inl e"
    with d t show "tickD ex f s = (s, [], Failed e)"
      by (simp add: assms(5,6) Let_def)
  }
  {
    assume "\<not> minNotional f \<le> mulN qD pr"
    with d t show "tickD ex f s = (s, [], NotionalSkipped)"
      by (simp add: assms(5,6) Let_def)
  }
qed

theorem buy_on_drop_witness:
  "percentageDrop configW \<le> priceDrop (basePrice sessionE) 99
   \<and> tick1 exchangeW filtersW configW sessionE =
       (\<lparr>basePrice = 99,
         activeOrders = [order8, \<lparr>orderId = 42, quantity = 2, price = 98\<rparr>]\<rparr>,
        [(BUY, 2, 98)], BuyPlaced 42)
   \<and> length (activeOrders (fst (tick1 exchangeW filtersW configW sessionE)))
       = length (activeOrders sessionE) + 1
   \<and> tick1 exchangeRej filtersW configW sessionE = (sessionE, [], Failed (ApiError ''rejected''))
   \<and> tick1 exchangeW filtersBig configW sessionE = (sessionE, [], NotionalSkipped)
   \<and> tickD exchangeW filtersW sessionEmpty =
       (\<lparr>basePrice = 99, activeOrders = [\<lparr>orderId = 42, quantity = 1 / 8, price = 98\<rparr>]\<rparr>,
        [(BUY, 1 / 8, 98)], BuyPlaced 42)"
proof -
  have p: "getCurrentPrice exchangeW = Inr 99" and pR: "getCurrentPrice exchangeRej = Inr 99"
    by code_simp+
  have nz: "basePrice sessionE \<noteq> 0" and nz0: "basePrice sessionEmpty \<noteq> 0"
    and pnz: "(99::rat) \<noteq> 0" by code_simp+
  have q: "2 = adjustQuantity (divN (investment configW) 99) (stepSize filtersW) (minQty filtersW)"
    and qB: "2 = adjustQuantity (divN (investment configW) 99) (stepSize filtersBig) (minQty filtersBig)"
    and qD: "1 / 8 = adjustQuantity (divN 2 99) (stepSize filtersW) (minQty filtersW)"
    and qDB: "1 / 8 = adjustQuantity (divN 2 99) (stepSize filtersBig) (minQty filtersBig)"
    and pr: "98 = adjustPrice (mulN 99 lit_0_99) (tickSize filtersW) (minPrice filtersW)"
    and prB: "98 = adjustPrice (mulN 99 lit_0_99) (tickSize filtersBig) (minPrice filtersBig)"
    by code_simp+
  have lg: "[order8] = filter (stays exchangeW) (activeOrders sessionE)"
    and lgR: "[order8] = filter (stays exchangeRej) (activeOrders sessionE)"
    and lg0: "[] = filter (stays exchangeW) (activeOrders sessionEmpty)"
    by code_simp+
  have sl: "([]::placement list) = map (sellOf1 filtersW)
              (rev (filter (\<lambda>order. \<not> stays exchangeW order) (activeOrders sessionE)))"
    and slR: "([]::placement list) = map (sellOf1 filtersW)
              (rev (filter (\<lambda>order. \<not> stays exchangeRej order) (activeOrders sessionE)))"
    and slB: "([]::placement list) = map (sellOf1 filtersBig)
              (rev (filter (\<lambda>order. \<not> stays exchangeW order) (activeOrders sessionE)))"
    and sl0: "([]::placement list) = map (sellOf1 filtersW)
              (rev (filter (\<lambda>order. \<not> stays exchangeW order) (activeOrders sessionEmpty)))"
    by code_simp+
  have drop: "percentageDrop configW \<le> priceDrop (basePrice sessionE) 99" by code_simp
  have h: "snd (snd (sweep1 exchangeW filtersW (length (activeOrders sessionE))
                       (activeOrders sessionE) [])) = None
           \<and> \<not> noBuys configW \<and> percentageDrop configW \<le> priceDrop (basePrice sessionE) 99"
    and hR: "snd (snd (sweep1 exchangeRej filtersW (length (activeOrders sessionE))
                       (activeOrders sessionE) [])) = None
           \<and> \<not> noBuys configW \<and> percentageDrop configW \<le> priceDrop (basePrice sessionE) 99"
    and hB: "snd (snd (sweep1 exchangeW filtersBig (length (activeOrders sessionE))
                       (activeOrders sessionE) [])) = None
           \<and> \<not> noBuys configW \<and> percentageDrop configW \<le> priceDrop (basePrice sessionE) 99"
    by code_simp+
  have stay: "\<forall>order \<in> set (activeOrders sessionE). stays exchangeW order" by code_simp
  have ok: "isValidNotional 2 98 (minNotional filtersW) \<and> placeSpotOrder exchangeW BUY 2 98 = Inr 42"
    and refused: "isValidNotional 2 98 (minNotional filtersW)
                  \<and> placeSpotOrder exchangeRej BUY 2 98 = Inl (ApiError ''rejected'')"
    and small: "\<not> isValidNotional 2 98 (minNotional filtersBig)"
    by code_simp+
  have hD: "activeOrders sessionEmpty = [] \<and> lit_0_60 \<le> priceDrop (basePrice sessionEmpty) 99"
    and okD: "minNotional filtersW \<le> mulN (1 / 8) 98 \<and> placeSpotOrder exchangeW BUY (1 / 8) 98 = Inr 42"
    by code_simp+
  have v: "sessionE\<lparr>activeOrders := [order8] @ [\<lparr>orderId = 42, quantity = 2, price = 98\<rparr>],
                     basePrice := 99\<rparr>
           = \<lparr>basePrice = 99, activeOrders = [order8, \<lparr>orderId = 42, quantity = 2, price = 98\<rparr>]\<rparr>"
    and vR: "sessionE\<lparr>activeOrders := [order8]\<rparr> = sessionE"
    and vD: "sessionEmpty\<lparr>activeOrders := [\<lparr>orderId = 42, quantity = 1 / 8, price = 98\<rparr>],
                         basePrice := 99\<rparr>
           = \<lparr>basePrice = 99, activeOrders = [\<lparr>orderId = 42, quantity = 1 / 8, price = 98\<rparr>]\<rparr>"
    by code_simp+
  note a = buy_on_drop[OF p nz pnz q qD pr lg sl, where buyId = 42 and e = "ApiError ''rejected''"]
  note b = buy_on_drop[OF pR nz pnz q qD pr lgR slR, where buyId = 42 and e = "ApiError ''rejected''"]
  note c = buy_on_drop[OF p nz pnz qB qDB prB lg slB, where buyId = 42 and e = "ApiError ''rejected''"]
  note d = buy_on_drop[OF p nz0 pnz q qD pr lg0 sl0, where buyId = 42 and e = "ApiError ''rejected''"]
  from a h ok stay v have 1: "tick1 exchangeW filtersW configW sessionE =
       (\<lparr>basePrice = 99,
         activeOrders = [order8, \<lparr>orderId = 42, quantity = 2, price = 98\<rparr>]\<rparr>,
        [(BUY, 2, 98)], BuyPlaced 42)"
    and 2: "length (activeOrders (fst (tick1 exchangeW filtersW configW sessionE)))
       = length (activeOrders sessionE) + 1"
    by simp_all
  from b hR refused vR
  have 3: "tick1 exchangeRej filtersW configW sessionE = (sessionE, [], Failed (ApiError ''rejected''))"
    by simp
  from c hB small stay
  have 4: "tick1 exchangeW filtersBig configW sessionE = (sessionE, [], NotionalSkipped)"
    by blast
  from d hD okD vD have 5: "tickD exchangeW filtersW sessionEmpty =
       (\<lparr>basePrice = 99, activeOrders = [\<lparr>orderId = 42, quantity = 1 / 8, price = 98\<rparr>]\<rparr>,
        [(BUY, 1 / 8, 98)], BuyPlaced 42)"
    by simp
  from drop 1 2 3 4 5 show ?thesis by blast
qed

section \<open>Rebase on rise\<close>

text \<open>
  C7 as stated fails: a tick in which the drop test does not fire and the rise test does
  is not free of orders or of ledger changes, since the fill sweep of the same tick has
  already run. With order 7 filled and the price at 102 (base 100), the tick sends a
  sell order and removes order 7 before it raises the base price.
\<close>

theorem rebase_tick_sells_counterexample:
  "\<not> ((\<not> (\<not> noBuys configW \<and> percentageDrop configW \<le> priceDrop (basePrice sessionW) 102)
        \<and> percentageRise configW \<le> priceRise (basePrice sessionW) 102
        \<and> getCurrentPrice exchangeUp = Inr 102)
       \<longrightarrow> (fst (snd (tick1 exchangeUp filtersW configW sessionW)) = []
            \<and> activeOrders (fst (tick1 exchangeUp filtersW configW sessionW)) = activeOrders sessionW))"
  by code_simp


text \<open>
  C7, amended: for every tick whose price request succeeds and whose fill sweep ends
  without an error, if the drop test does not fire and the rise is at least
  \<open>percentageRise\<close>, the tick sets \<open>basePrice\<close> to the price of this tick, sends no buy
  order (the only orders are the sell orders of the sweep), leaves the ledger as the
  sweep left it and changes no other field of the session; when no tracked order
  answers FILLED the ledger is unchanged and no order is sent at all. In discordbot.js
  the sweep ends without an error exactly when the ledger is empty. The base price is a
  divisor and is taken to be non-zero.
\<close>

theorem rebase_on_rise:
  assumes "getCurrentPrice ex = Inr p" and "basePrice s \<noteq> 0"
  shows "(snd (snd (sweep1 ex f (length (activeOrders s)) (activeOrders s) [])) = None
          \<and> \<not> (\<not> noBuys c \<and> percentageDrop c \<le> priceDrop (basePrice s) p)
          \<and> percentageRise c \<le> priceRise (basePrice s) p
          \<longrightarrow> tick1 ex f c s =
                (s\<lparr>activeOrders := filter (stays ex) (activeOrders s), basePrice := p\<rparr>,
                 map (sellOf1 f) (rev (filter (\<lambda>order. \<not> stays ex order) (activeOrders s))),
                 BaseRaised)
              \<and> ((\<forall>order \<in> set (activeOrders s). stays ex order)
                   \<longrightarrow> tick1 ex f c s = (s\<lparr>basePrice := p\<rparr>, [], BaseRaised)))
       \<and> (activeOrders s = []
          \<and> \<not> lit_0_60 \<le> priceDrop (basePrice s) p
          \<and> lit_1_2 \<le> priceRise (basePrice s) p
          \<longrightarrow> tickD ex f s = (s\<lparr>basePrice := p\<rparr>, [], BaseRaised))"
proof (intro conjI impI)
  assume h: "snd (snd (sweep1 ex f (length (activeOrders s)) (activeOrders s) [])) = None
          \<and> \<not> (\<not> noBuys c \<and> percentageDrop c \<le> priceDrop (basePrice s) p)
          \<and> percentageRise c \<le> priceRise (basePrice s) p"
  then show t: "tick1 ex f c s =
                (s\<lparr>activeOrders := filter (stays ex) (activeOrders s), basePrice := p\<rparr>,
                 map (sellOf1 f) (rev (filter (\<lambda>order. \<not> stays ex order) (activeOrders s))),
                 BaseRaised)"
    using tick1_rise[OF assms(1), of f s c] by blast
  assume "\<forall>order \<in> set (activeOrders s). stays ex order"
  from filter_all_stay[OF this] t show "tick1 ex f c s = (s\<lparr>basePrice := p\<rparr>, [], BaseRaised)"
    by simp
next
  assume "activeOrders s = []
          \<and> \<not> lit_0_60 \<le> priceDrop (basePrice s) p
          \<and> lit_1_2 \<le> priceRise (basePrice s) p"
  then show "tickD ex f s = (s\<lparr>basePrice := p\<rparr>, [], BaseRaised)"
    using tickD_empty[OF assms(1), of s f] by simp
qed

theorem rebase_on_rise_witness:
  "getCurrentPrice exchangeUp = Inr 102
   \<and> percentageRise configW \<le> priceRise (basePrice sessionW) 102
   \<and> tick1 exchangeUp filtersW configW sessionW =
       (\<lparr>basePrice = 102, activeOrders = [order8]\<rparr>, [(SELL, 10, 103 / 2)], BaseRaised)
   \<and> tick1 exchangeUp filtersW configW sessionE = (sessionE\<lparr>basePrice := 102\<rparr>, [], BaseRaised)
   \<and> tickD exchangeUp filtersW sessionEmpty = (sessionEmpty\<lparr>basePrice := 102\<rparr>, [], BaseRaised)"
proof -
  have p: "getCurrentPrice exchangeUp = Inr 102" by code_simp
  have nzW: "basePrice sessionW \<noteq> 0" and nzE: "basePrice sessionE \<noteq> 0"
    and nz0: "basePrice sessionEmpty \<noteq> 0" by code_simp+
  have rise: "percentageRise configW \<le> priceRise (basePrice sessionW) 102" by code_simp
  have hW: "snd (snd (sweep1 exchangeUp filtersW (length (activeOrders sessionW))
                        (activeOrders sessionW) [])) = None
            \<and> \<not> (\<not> noBuys configW
                   \<and> percentageDrop configW \<le> priceDrop (basePrice sessionW) 102)
            \<and> percentageRise configW \<le> priceRise (basePrice sessionW) 102"
    by code_simp
  have hE: "snd (snd (sweep1 exchangeUp filtersW (length (activeOrders sessionE))
                        (activeOrders sessionE) [])) = None
            \<and> \<not> (\<not> noBuys configW
                   \<and> percentageDrop configW \<le> priceDrop (basePrice sessionE) 102)
            \<and> percentageRise configW \<le> priceRise (basePrice sessionE) 102"
    by code_simp
  have stayE: "\<forall>order \<in> set (activeOrders sessionE). stays exchangeUp order"
    by code_simp
  have h0: "activeOrders sessionEmpty = []
            \<and> \<not> lit_0_60 \<le> priceDrop (basePrice sessionEmpty) 102
            \<and> lit_1_2 \<le> priceRise (basePrice sessionEmpty) 102"
    by code_simp
  have vW: "(sessionW\<lparr>activeOrders := filter (stays exchangeUp) (activeOrders sessionW),
                       basePrice := 102\<rparr>,
             map (sellOf1 filtersW)
               (rev (filter (\<lambda>order. \<not> stays exchangeUp order) (activeOrders sessionW))),
             BaseRaised)
            = (\<lparr>basePrice = 102, activeOrders = [order8]\<rparr>, [(SELL, 10, 103 / 2)], BaseRaised)"
    by code_simp
  from rebase_on_rise[OF p nzW, of filtersW configW] hW vW
  have 1: "tick1 exchangeUp filtersW configW sessionW =
       (\<lparr>basePrice = 102, activeOrders = [order8]\<rparr>, [(SELL, 10, 103 / 2)], BaseRaised)"
    by simp
  from rebase_on_rise[OF p nzE, of filtersW configW] hE stayE
  have 2: "tick1 exchangeUp filtersW configW sessionE = (sessionE\<lparr>basePrice := 102\<rparr>, [], BaseRaised)"
    by blast
  from rebase_on_rise[OF p nz0, of filtersW configW] h0
  have 3: "tickD exchangeUp filtersW sessionEmpty = (sessionEmpty\<lparr>basePrice := 102\<rparr>, [], BaseRaised)"
    by blast
  from p rise 1 2 3 show ?thesis by blast
qed

section \<open>The sell order for a filled buy order\<close>

text \<open>
  C2: for a tracked order observed FILLED the order is removed and a sell order for its
  quantity is sent at \<open>adjustPrice (order.price * (1 + ratio))\<close> with a ratio between
  0.012 and 0.03012; the sell order is not added to the ledger. The first variant does
  so for order 7 (price 50, tick 0.25): it sells at 51.5. The second variant of
  GridBot.js multiplies by 3.012 and does not quantize: it sells the same order at
  150.6.
\<close>

theorem second_variant_sell_price:
  "sweep2 exchangeW (length [order7, order8]) [order7, order8] []
     = ([order8], [(SELL, 10, fl (1506 / 10))], None)
   \<and> fl (1506 / 10) = mulN (price order7) lit_3_012
   \<and> sweep1 exchangeW filtersW (length [order7, order8]) [order7, order8] []
     = ([order8], [(SELL, 10, 103 / 2)], None)
   \<and> adjustPrice (mulN (price order7) lit_1_03012) (tickSize filtersW) (minPrice filtersW) = 103 / 2
   \<and> mulN (price order7) lit_1_03012 < 52
   \<and> 150 < fl (1506 / 10)"
  by code_simp

section \<open>Failures inside a tick\<close>

text \<open>
  What a failing exchange call leaves behind in the first variant. The whole callback
  body is inside try/catch, so a tick always ends with a report. A failed price request
  leaves the session as it was; a tick that ends in an error has not changed
  \<open>basePrice\<close> and has added nothing to the ledger; when the exchange refuses the buy
  order nothing is added; every order that was not seen FILLED is still tracked, in
  particular the order whose status request failed, and that failure is reported; a
  tick that reports no error got an answer to its price request, to the status request
  of every tracked order and to the sell order of every filled one. A failing tick of
  discordbot.js leaves the session as it was.
\<close>

lemma tick1_failure_effects:
  "(getCurrentPrice ex = Inl e \<longrightarrow> tick1 ex f c s = (s, [], Failed e))
   \<and> (snd (snd (tick1 ex f c s)) = Failed e \<longrightarrow>
        basePrice (fst (tick1 ex f c s)) = basePrice s
        \<and> subseq (activeOrders (fst (tick1 ex f c s))) (activeOrders s))
   \<and> ((\<forall>q pr. \<exists>e'. placeSpotOrder ex BUY q pr = Inl e') \<longrightarrow>
        subseq (activeOrders (fst (tick1 ex f c s))) (activeOrders s)
        \<and> (\<forall>pl \<in> set (fst (snd (tick1 ex f c s))). fst pl = SELL)
        \<and> (\<forall>buyId. snd (snd (tick1 ex f c s)) \<noteq> BuyPlaced buyId))
   \<and> subseq (filter (stays ex) (activeOrders s)) (activeOrders (fst (tick1 ex f c s)))
   \<and> (\<forall>order \<in> set (activeOrders s).
         (\<exists>e'. checkOrderStatus ex (orderId order) = Inl e') \<longrightarrow>
         order \<in> set (activeOrders (fst (tick1 ex f c s)))
         \<and> (\<exists>e''. snd (snd (tick1 ex f c s)) = Failed e''))
   \<and> ((\<forall>e'. snd (snd (tick1 ex f c s)) \<noteq> Failed e') \<longrightarrow>
        (\<exists>p. getCurrentPrice ex = Inr p)
        \<and> (\<forall>order \<in> set (activeOrders s).
              (\<exists>status. checkOrderStatus ex (orderId order) = Inr status)
              \<and> (\<not> stays ex order \<longrightarrow>
                   (\<exists>sellId. placeSpotOrder ex SELL (quantity order)
                                (adjustPrice (mulN (price order) lit_1_03012)
                                   (tickSize f) (minPrice f))
                              = Inr sellId))))
   \<and> (snd (snd (tickD ex f s)) = Failed e \<longrightarrow> fst (tickD ex f s) = s)"
proof -
  have a: "getCurrentPrice ex = Inl e \<longrightarrow> tick1 ex f c s = (s, [], Failed e)"
    by (simp add: tick1_price_error)
  have b: "snd (snd (tick1 ex f c s)) = Failed e \<longrightarrow>
        basePrice (fst (tick1 ex f c s)) = basePrice s
        \<and> subseq (activeOrders (fst (tick1 ex f c s))) (activeOrders s)"
  proof (cases rule: tick1_cases[of ex f c s])
    case (sweep_error p orders sells e0)
    with sweep1_ledger(2)[OF sweep_error(2)] show ?thesis by simp
  qed auto
  have k: "subseq (filter (stays ex) (activeOrders s)) (activeOrders (fst (tick1 ex f c s)))"
  proof (cases rule: tick1_cases[of ex f c s])
    case (price_error e0)
    then show ?thesis by simp
  next
    case (sweep_error p orders sells e0)
    with sweep1_ledger(1)[OF sweep_error(2)] show ?thesis by simp
  next
    case (bought p sells buyId q pr)
    then show ?thesis by (simp add: list_emb_prefix)
  qed auto
  have sells: "\<forall>pl \<in> set (fst (snd (sweep1 ex f (length (activeOrders s)) (activeOrders s) []))).
                 fst pl = SELL"
  proof -
    obtain os sells' err where
      r: "sweep1 ex f (length (activeOrders s)) (activeOrders s) [] = (os, sells', err)"
      by (cases "sweep1 ex f (length (activeOrders s)) (activeOrders s) []") auto
    from sweep1_sells[OF r] r show ?thesis by auto
  qed
  have nobuy: "(\<forall>q pr. \<exists>e'. placeSpotOrder ex BUY q pr = Inl e') \<longrightarrow>
        subseq (activeOrders (fst (tick1 ex f c s))) (activeOrders s)
        \<and> (\<forall>pl \<in> set (fst (snd (tick1 ex f c s))). fst pl = SELL)
        \<and> (\<forall>buyId. snd (snd (tick1 ex f c s)) \<noteq> BuyPlaced buyId)"
  proof (cases rule: tick1_cases[of ex f c s])
    case (price_error e0)
    then show ?thesis by simp
  next
    case (sweep_error p orders sells0 e0)
    with sweep1_ledger(2)[OF sweep_error(2)] sells show ?thesis by simp
  next
    case (buy_error p sells0 e0 q pr)
    with sells show ?thesis by simp
  next
    case (bought p sells0 buyId q pr)
    then show ?thesis by (metis sum.distinct(1))
  next
    case (quiet p sells0 r b)
    with sells show ?thesis by auto
  qed
  have tracked: "\<forall>order \<in> set (activeOrders s).
         (\<exists>e'. checkOrderStatus ex (orderId order) = Inl e') \<longrightarrow>
         order \<in> set (activeOrders (fst (tick1 ex f c s)))
         \<and> (\<exists>e''. snd (snd (tick1 ex f c s)) = Failed e'')"
  proof (intro ballI impI)
    fix order assume mem: "order \<in> set (activeOrders s)"
      and bad: "\<exists>e'. checkOrderStatus ex (orderId order) = Inl e'"
    then have "order \<in> set (filter (stays ex) (activeOrders s))"
      by (auto simp: stays_def)
    with k have here: "order \<in> set (activeOrders (fst (tick1 ex f c s)))"
      using list_emb_set[of "(=)" "filter (stays ex) (activeOrders s)"
                            "activeOrders (fst (tick1 ex f c s))" order]
      by auto
    have ok: False if "sweep1 ex f (length (activeOrders s)) (activeOrders s) [] = (os, sl, None)" for os sl
      using sweep1_answers[of ex f "activeOrders s" "[]" "[]" os sl] that mem bad by auto
    have "\<exists>e''. snd (snd (tick1 ex f c s)) = Failed e''"
      by (cases rule: tick1_cases[of ex f c s]) (use ok in auto)
    with here show "order \<in> set (activeOrders (fst (tick1 ex f c s)))
         \<and> (\<exists>e''. snd (snd (tick1 ex f c s)) = Failed e'')" by simp
  qed
  have d: "snd (snd (tickD ex f s)) = Failed e \<longrightarrow> fst (tickD ex f s) = s"
  proof (cases "getCurrentPrice ex")
    case (Inl e0)
    then show ?thesis by (simp add: tickD_price_error)
  next
    case (Inr p)
    show ?thesis
    proof (cases "activeOrders s = []")
      case False
      with Inr show ?thesis by (simp add: tickD_nonempty)
    next
      case True
      with Inr show ?thesis
        by (auto simp add: tickD_empty Let_def split: sum.splits if_splits)
    qed
  qed
  have quiet: "(\<forall>e'. snd (snd (tick1 ex f c s)) \<noteq> Failed e') \<longrightarrow>
        (\<exists>p. getCurrentPrice ex = Inr p)
        \<and> (\<forall>order \<in> set (activeOrders s).
              (\<exists>status. checkOrderStatus ex (orderId order) = Inr status)
              \<and> (\<not> stays ex order \<longrightarrow>
                   (\<exists>sellId. placeSpotOrder ex SELL (quantity order)
                                (adjustPrice (mulN (price order) lit_1_03012)
                                   (tickSize f) (minPrice f))
                              = Inr sellId)))"
    using tick1_quiet_calls[of ex f c s] by blast
  from a b nobuy k tracked quiet d show ?thesis by blast
qed

text \<open>
  C4: a tick of GridBot.js in which the exchange refuses the sell order of a filled buy
  order. The sweep splices the filled order out of the ledger (line 192) before it
  awaits the sell order (line 194), so the refusal is caught and reported, but the
  order is no longer tracked and nothing has been sent for it. Here the session tracks
  the orders 7 and 8, order 7 answers FILLED and the exchange refuses every sell order:
  the tick ends with the ledger holding order 8 only, no order placed and the error
  reported. On the two ticks after it the exchange accepts every order; order 7 is not
  in the ledger, its status is never requested again, and the only order the three
  ticks place is a buy order. discordbot.js (lines 142 and 145) sends the sell order
  first and splices after it.
\<close>

theorem refused_sell_loses_filled_order:
  "checkOrderStatus exchangeSellRej (orderId order7) = Inr ''FILLED''
   \<and> order7 \<in> set (activeOrders sessionW)
   \<and> placeSpotOrder exchangeSellRej SELL (quantity order7)
        (adjustPrice (mulN (price order7) lit_1_03012) (tickSize filtersW) (minPrice filtersW))
       = Inl (ApiError ''rejected'')
   \<and> tick1 exchangeSellRej filtersW configW sessionW
       = (\<lparr>basePrice = 100, activeOrders = [order8]\<rparr>, [], Failed (ApiError ''rejected''))
   \<and> order7 \<notin> set (activeOrders (fst (tick1 exchangeSellRej filtersW configW sessionW)))
   \<and> run1 filtersW configW [exchangeSellRej, exchangeW, exchangeW] sessionW
       = (\<lparr>basePrice = 99,
            activeOrders = [order8, \<lparr>orderId = 42, quantity = 2, price = 98\<rparr>]\<rparr>,
          [(BUY, 2, 98)],
          [Failed (ApiError ''rejected''), BuyPlaced 42, Unchanged])"
  by code_simp

section \<open>The sweep of discordbot.js\<close>

lemma tickD_ledger_grows:
  "prefix (activeOrders s) (activeOrders (fst (tickD ex f s)))
   \<and> (\<forall>pl \<in> set (fst (snd (tickD ex f s))). fst pl = BUY)"
proof (cases "getCurrentPrice ex")
  case (Inl e)
  then show ?thesis by (simp add: tickD_price_error)
next
  case (Inr p)
  show ?thesis
  proof (cases "activeOrders s = []")
    case False
    with Inr show ?thesis by (simp add: tickD_nonempty)
  next
    case True
    with Inr show ?thesis
      by (auto simp add: tickD_empty Let_def split: sum.splits)
  qed
qed

lemma runD_ledger_grows:
  "prefix (activeOrders s) (activeOrders (fst (runD f exs s)))
   \<and> (\<forall>pl \<in> set (fst (snd (runD f exs s))). fst pl = BUY)"
proof (induction exs arbitrary: s)
  case Nil
  show ?case by simp
next
  case (Cons ex exs)
  obtain s' placed r where t: "tickD ex f s = (s', placed, r)"
    by (cases "tickD ex f s") auto
  obtain s'' placed' rs where u: "runD f exs s' = (s'', placed', rs)"
    by (cases "runD f exs s'") auto
  from tickD_ledger_grows[of s ex f] t
  have a: "prefix (activeOrders s) (activeOrders s')" "\<forall>pl \<in> set placed. fst pl = BUY" by auto
  from Cons.IH[of s'] u
  have b: "prefix (activeOrders s') (activeOrders s'')" "\<forall>pl \<in> set placed'. fst pl = BUY" by auto
  from a b t u show ?case by (auto intro: prefix_order.trans)
qed

text \<open>
  C6: in discordbot.js every tick that starts with a non-empty ledger ends in the error
  handler with the session unchanged and nothing sent, with the ReferenceError when the
  price request succeeded; the tick does not depend on what the exchange would answer
  to a status request; no tick and no sequence of ticks removes an order from the
  ledger or sends a sell order.
\<close>

theorem discord_sweep_always_throws:
  "(activeOrders s \<noteq> [] \<longrightarrow>
      tickD ex f s =
        (s, [], Failed (case getCurrentPrice ex of
                          Inl e \<Rightarrow> e
                        | Inr p \<Rightarrow> ReferenceError ''checkOrderStatus is not defined'')))
   \<and> tickD (ex\<lparr>checkOrderStatus := g\<rparr>) f s = tickD ex f s
   \<and> prefix (activeOrders s) (activeOrders (fst (tickD ex f s)))
   \<and> (\<forall>pl \<in> set (fst (snd (tickD ex f s))). fst pl = BUY)
   \<and> prefix (activeOrders s) (activeOrders (fst (runD f exs s)))
   \<and> (\<forall>pl \<in> set (fst (snd (runD f exs s))). fst pl = BUY)"
proof -
  have 1: "activeOrders s \<noteq> [] \<longrightarrow>
      tickD ex f s =
        (s, [], Failed (case getCurrentPrice ex of
                          Inl e \<Rightarrow> e
                        | Inr p \<Rightarrow> ReferenceError ''checkOrderStatus is not defined''))"
    by (cases "getCurrentPrice ex") (simp_all add: tickD_price_error tickD_nonempty)
  have 2: "tickD (ex\<lparr>checkOrderStatus := g\<rparr>) f s = tickD ex f s"
    by (cases "getCurrentPrice ex") (simp_all add: tickD_def sweepD_throws Let_def)
  from 1 2 tickD_ledger_grows[of s ex f] runD_ledger_grows[of s f exs] show ?thesis by blast
qed

theorem discord_sweep_always_throws_witness:
  "activeOrders sessionW \<noteq> []
   \<and> tickD exchangeW filtersW sessionW
       = (sessionW, [], Failed (ReferenceError ''checkOrderStatus is not defined''))
   \<and> tickD (exchangeW\<lparr>checkOrderStatus := (\<lambda>oid. Inr ''FILLED'')\<rparr>) filtersW sessionW
       = tickD exchangeW filtersW sessionW
   \<and> prefix (activeOrders sessionEmpty)
        (activeOrders (fst (runD filtersW [exchangeW, exchangeW] sessionEmpty)))
   \<and> fst (snd (runD filtersW [exchangeW, exchangeW] sessionEmpty)) = [(BUY, 1 / 8, 98)]"
proof -
  have ne: "activeOrders sessionW \<noteq> []" by code_simp
  have v: "(case getCurrentPrice exchangeW of
              Inl e \<Rightarrow> e
            | Inr p \<Rightarrow> ReferenceError ''checkOrderStatus is not defined'')
           = ReferenceError ''checkOrderStatus is not defined''"
    by code_simp
  have placed: "fst (snd (runD filtersW [exchangeW, exchangeW] sessionEmpty)) = [(BUY, 1 / 8, 98)]"
    by code_simp
  note t = discord_sweep_always_throws[of sessionW exchangeW filtersW "\<lambda>oid. Inr ''FILLED''" "[]"]
  note u = discord_sweep_always_throws[of sessionEmpty exchangeW filtersW "\<lambda>oid. Inr ''FILLED''"
             "[exchangeW, exchangeW]"]
  from t ne v have 1: "tickD exchangeW filtersW sessionW
       = (sessionW, [], Failed (ReferenceError ''checkOrderStatus is not defined''))" by simp
  from t have 2: "tickD (exchangeW\<lparr>checkOrderStatus := (\<lambda>oid. Inr ''FILLED'')\<rparr>) filtersW sessionW
       = tickD exchangeW filtersW sessionW" by blast
  from u have 3: "prefix (activeOrders sessionEmpty)
        (activeOrders (fst (runD filtersW [exchangeW, exchangeW] sessionEmpty)))" by blast
  from ne 1 2 3 placed show ?thesis by blast
qed

section \<open>Starting a session\<close>

lemma setpair_not_setapikey: "prefix ''!setpair'' x \<Longrightarrow> \<not> prefix ''!setapikey'' x"
  by (auto simp: prefix_def)

lemma messageCreate_setpair:
  "prefix ''!setpair'' (content m) \<Longrightarrow> messageCreate st m sv = setpair st m sv"
  by (simp add: messageCreate_def setpair_not_setapikey)

text \<open>
  C9 as stated fails: the handler keeps no record of the loops it has started and asks
  no question before it starts one. The same user sending \<open>!setpair DOGEUSDT\<close> twice
  gets two loops for the same credentials and symbol, and the second start reports no
  error.
\<close>

theorem second_start_not_refused_counterexample:
  "intervals (messageCreate startupW messageW supervisorW) = [botW]
   \<and> intervals (messageCreate startupW messageW (messageCreate startupW messageW supervisorW))
       = [botW, botW]
   \<and> sent (messageCreate startupW messageW (messageCreate startupW messageW supervisorW))
       = [Starting (Some ''DOGEUSDT''), Started (Some ''DOGEUSDT'') 100, Fetched 0,
          Starting (Some ''DOGEUSDT''), Started (Some ''DOGEUSDT'') 100, Fetched 0]"
  by code_simp

text \<open>
  C9, amended: every \<open>!setpair\<close> message of a user whose credentials are stored calls
  \<open>startGridBot\<close> once; the call starts exactly one polling loop when the filters, the
  price and the open orders are fetched, whatever loops are already running (also one
  for the same user and symbol), and starts none and reports the error when a fetch
  fails. A user without stored credentials starts nothing.
\<close>

theorem start_adds_one_loop:
  assumes "prefix ''!setpair'' (content m)"
    and "symbol = element (split_space (content m)) 1"
  shows
    "(userTradingData sv (author m) = Some userData
      \<and> getTradingPairInfo st symbol = Inr f
      \<and> getStartPrice st symbol = Inr base
      \<and> fetchActiveOrders st (apiKey userData) (apiSecret userData) symbol = Inr orders
      \<longrightarrow> intervals (messageCreate st m sv) =
            intervals sv @
              [\<lparr>botKey = apiKey userData, botSecret = apiSecret userData, botSymbol = symbol,
                botChannel = channel m, botFilters = f,
                botSession = \<lparr>basePrice = base, activeOrders = orders\<rparr>\<rparr>]
          \<and> sent (messageCreate st m sv) =
              sent sv @ [Starting symbol, Started symbol base, Fetched (length orders)])
     \<and> (userTradingData sv (author m) = Some userData
        \<and> ((\<exists>e. getTradingPairInfo st symbol = Inl e)
            \<or> (\<exists>e. getStartPrice st symbol = Inl e)
            \<or> (\<exists>e. fetchActiveOrders st (apiKey userData) (apiSecret userData) symbol = Inl e))
        \<longrightarrow> intervals (messageCreate st m sv) = intervals sv
            \<and> (\<exists>e. last (sent (messageCreate st m sv)) = StartError e))
     \<and> (userTradingData sv (author m) = None
        \<longrightarrow> intervals (messageCreate st m sv) = intervals sv
            \<and> sent (messageCreate st m sv) = sent sv @ [CredentialsMissing])"
  using assms
  by (auto simp add: messageCreate_setpair setpair_def startGridBot_def Let_def
           split: sum.splits)

theorem start_adds_one_loop_witness:
  "prefix ''!setpair'' (content messageW)
   \<and> intervals (messageCreate startupW messageW supervisorW) = [botW]
   \<and> intervals (messageCreate startupW messageW (supervisorW\<lparr>intervals := [botW]\<rparr>)) = [botW, botW]
   \<and> intervals (messageCreate startupW messageBad supervisorW) = []
   \<and> (\<exists>e. last (sent (messageCreate startupW messageBad supervisorW)) = StartError e)
   \<and> intervals (messageCreate startupW (messageW\<lparr>author := 2\<rparr>) supervisorW) = []"
proof -
  have pre: "prefix ''!setpair'' (content messageW)"
    and preB: "prefix ''!setpair'' (content messageBad)"
    and pre2: "prefix ''!setpair'' (content (messageW\<lparr>author := 2\<rparr>))" by code_simp+
  have sym: "Some ''DOGEUSDT'' = element (split_space (content messageW)) 1"
    and symB: "Some ''NOPE'' = element (split_space (content messageBad)) 1"
    and sym2: "Some ''DOGEUSDT'' = element (split_space (content (messageW\<lparr>author := 2\<rparr>))) 1"
    by code_simp+
  let ?cr = "\<lparr>apiKey = ''key'', apiSecret = ''secret''\<rparr>"
  have h: "userTradingData supervisorW (author messageW) = Some ?cr
      \<and> getTradingPairInfo startupW (Some ''DOGEUSDT'') = Inr filtersW
      \<and> getStartPrice startupW (Some ''DOGEUSDT'') = Inr 100
      \<and> fetchActiveOrders startupW (apiKey ?cr) (apiSecret ?cr) (Some ''DOGEUSDT'') = Inr []"
    by code_simp
  have h': "userTradingData (supervisorW\<lparr>intervals := [botW]\<rparr>) (author messageW) = Some ?cr"
    by code_simp
  have hB: "userTradingData supervisorW (author messageBad) = Some ?cr
      \<and> getTradingPairInfo startupW (Some ''NOPE'') = Inl (ApiError ''Trading pair not found.'')"
    by code_simp
  have h2: "userTradingData supervisorW (author (messageW\<lparr>author := 2\<rparr>)) = None"
    by code_simp
  have v: "intervals supervisorW @
              [\<lparr>botKey = apiKey ?cr, botSecret = apiSecret ?cr, botSymbol = Some ''DOGEUSDT'',
                botChannel = channel messageW, botFilters = filtersW,
                botSession = \<lparr>basePrice = 100, activeOrders = []\<rparr>\<rparr>] = [botW]"
    and v': "intervals (supervisorW\<lparr>intervals := [botW]\<rparr>) @
              [\<lparr>botKey = apiKey ?cr, botSecret = apiSecret ?cr, botSymbol = Some ''DOGEUSDT'',
                botChannel = channel messageW, botFilters = filtersW,
                botSession = \<lparr>basePrice = 100, activeOrders = []\<rparr>\<rparr>] = [botW, botW]"
    and v0: "intervals supervisorW = []"
    by code_simp+
  note a = start_adds_one_loop[OF pre sym, where sv = supervisorW and userData = ?cr
             and st = startupW and f = filtersW and base = 100 and orders = "[]"]
  note b = start_adds_one_loop[OF pre sym, where sv = "supervisorW\<lparr>intervals := [botW]\<rparr>"
             and userData = ?cr and st = startupW and f = filtersW and base = 100 and orders = "[]"]
  note c = start_adds_one_loop[OF preB symB, where sv = supervisorW and userData = ?cr
             and st = startupW and f = filtersW and base = 100 and orders = "[]"]
  note d = start_adds_one_loop[OF pre2 sym2, where sv = supervisorW and userData = ?cr
             and st = startupW and f = filtersW and base = 100 and orders = "[]"]
  from a h v have 1: "intervals (messageCreate startupW messageW supervisorW) = [botW]" by simp
  from b h h' v' have 2: "intervals (messageCreate startupW messageW (supervisorW\<lparr>intervals := [botW]\<rparr>))
                        = [botW, botW]" by simp
  from c hB v0 have 3: "intervals (messageCreate startupW messageBad supervisorW) = []
     \<and> (\<exists>e. last (sent (messageCreate startupW messageBad supervisorW)) = StartError e)"
    by metis
  from d h2 v0 have 4: "intervals (messageCreate startupW (messageW\<lparr>author := 2\<rparr>) supervisorW) = []"
    by simp
  from pre 1 2 3 4 show ?thesis by blast
qed

end
